theory Spec2Isabelle
  imports Main "HOL-Library.Word" "HOL-Library.AList"
begin

section \<open>Go values used by the tracer\<close>

text \<open>
  A Go \<open>uint64\<close> is a 64-bit word. A Go \<open>map[string]string\<close> is an association list
  with distinct keys: the list order is the order in which one \<open>range\<close> loop visits the
  entries, \<open>m[k]\<close> is \<open>map_of m k\<close> and \<open>m[k] = v\<close> is \<open>AList.update k v m\<close>. A nil map
  and an empty one hold the same (no) entries and are both \<open>[]\<close>. Strings are byte
  strings.
\<close>

type_synonym uint64 = "64 word"
type_synonym gomap = "(string \<times> string) list"

subsection \<open>The functions of packages strings and strconv the tracer calls\<close>

definition isASCII :: "char \<Rightarrow> bool" where
  "isASCII c = ((of_char c :: nat) < 128)"

definition isUpper :: "char \<Rightarrow> bool" where
  "isUpper c = (65 \<le> (of_char c :: nat) \<and> (of_char c :: nat) \<le> 90)"

definition lowerByte :: "char \<Rightarrow> char" where
  "lowerByte c = (if isUpper c then char_of ((of_char c :: nat) + 32) else c)"

text \<open>
  \<open>strings.ToLower\<close>: a string of ASCII bytes is returned as it is when it has no upper
  case letter and is lowered byte by byte otherwise. Any other string goes through
  \<open>strings.Map(unicode.ToLower, s)\<close>, which works rune by rune from the left: the bytes
  before the first non-ASCII byte are one-byte runes, lowered as above; what the Unicode
  tables make of the rest is the parameter \<open>unicodeLower\<close>.
\<close>

definition ToLower :: "(string \<Rightarrow> string) \<Rightarrow> string \<Rightarrow> string" where
  "ToLower unicodeLower s =
     (if list_all isASCII s then (if list_ex isUpper s then map lowerByte s else s)
      else map lowerByte (takeWhile isASCII s) @ unicodeLower (dropWhile isASCII s))"

definition HasPrefix :: "string \<Rightarrow> string \<Rightarrow> bool" where
  "HasPrefix s prefix = (length prefix \<le> length s \<and> take (length prefix) s = prefix)"

definition TrimPrefix :: "string \<Rightarrow> string \<Rightarrow> string" where
  "TrimPrefix s prefix = (if HasPrefix s prefix then drop (length prefix) s else s)"

text \<open>The value of a digit of \<open>strconv.ParseUint\<close> in base 16: 0-9, a-f, A-F.\<close>

definition hexVal :: "char \<Rightarrow> nat option" where
  "hexVal c =
     (let n = (of_char c :: nat) in
      if 48 \<le> n \<and> n \<le> 57 then Some (n - 48)
      else if 97 \<le> n \<and> n \<le> 102 then Some (n - 87)
      else if 65 \<le> n \<and> n \<le> 70 then Some (n - 55)
      else None)"

text \<open>
  The digit loop of \<open>strconv.ParseUint(s, 16, 64)\<close>: a byte that is no hex digit is a
  syntax error, a value that leaves 64 bits is a range error; both are \<open>None\<close>, since the
  tracer only tests \<open>err != nil\<close>.
\<close>

fun parseHex :: "nat \<Rightarrow> string \<Rightarrow> nat option" where
  "parseHex n [] = Some n"
| "parseHex n (c # cs) =
     (case hexVal c of
        None \<Rightarrow> None
      | Some d \<Rightarrow> if 2 ^ 64 \<le> n * 16 + d then None else parseHex (n * 16 + d) cs)"

definition ParseUint :: "string \<Rightarrow> uint64 option" where
  "ParseUint s = (if s = [] then None else map_option word_of_nat (parseHex 0 s))"

text \<open>
  \<open>strconv.FormatUint(x, 16)\<close> reads its digits from the table \<open>digits\<close> of package
  strconv: lower case, no leading zero, \<open>0\<close> for zero.
\<close>

definition digits :: string where
  "digits = ''0123456789abcdefghijklmnopqrstuvwxyz''"

definition hexDigit :: "nat \<Rightarrow> char" where
  "hexDigit d = digits ! d"

fun formatHex :: "nat \<Rightarrow> string" where
  "formatHex n = (if n < 16 then [hexDigit n] else formatHex (n div 16) @ [hexDigit (n mod 16)])"

declare formatHex.simps [simp del]

definition FormatUint :: "uint64 \<Rightarrow> string" where
  "FormatUint x = formatHex (unat x)"

section \<open>The wire format: constants of tracer.go\<close>

definition verboseTracingBaggageKey :: string where
  "verboseTracingBaggageKey = ''sb''"

definition prefixTracerState :: string where
  "prefixTracerState = ''crdb-tracer-''"

definition prefixBaggage :: string where
  "prefixBaggage = ''crdb-baggage-''"

definition prefixShadow :: string where
  "prefixShadow = ''crdb-shadow-''"

definition fieldNameTraceID :: string where
  "fieldNameTraceID = prefixTracerState @ ''traceid''"

definition fieldNameSpanID :: string where
  "fieldNameSpanID = prefixTracerState @ ''spanid''"

definition fieldNameShadowType :: string where
  "fieldNameShadowType = prefixTracerState @ ''shadowtype''"

datatype mode = modeLegacy | modeBackground

datatype serializationFormat = metadataFormat | mapFormat

text \<open>The two recording types tracer.go names.\<close>

datatype RecordingType = RecordingOff | RecordingVerbose

datatype error =
    unsupported_carrier
  | ErrSpanContextCorrupted
  | backend_error string

text \<open>An \<open>opentracing.SpanContext\<close> of the shadow tracer: an opaque handle.\<close>

datatype SpanContext = SpanContext nat

text \<open>\<open>opentracing.SpanReferenceType\<close> is an integer type with two named values.\<close>

datatype SpanReferenceType = ChildOfRef | FollowsFromRef | otherRef nat

text \<open>
  Modelled from the spec: the shadow tracer (LightStep, Zipkin) is declared outside
  tracer.go; it is an external collaborator, called through its operations. \<open>Type_name\<close> is the name its manager reports. \<open>Inject ctx format\<close> gives the
  \<open>Set\<close> calls the backend makes on the writer it is handed, in order, and the error it
  returns. \<open>Extract format carrier\<close> gives the context or the error. \<open>Create\<close> starts a
  backend span (parent context, reference kind, operation name, start time) and gives
  its context.
\<close>

record shadowTracer =
  Type_name :: string
  Create :: "SpanContext option \<Rightarrow> SpanReferenceType \<Rightarrow> string \<Rightarrow> nat \<Rightarrow> SpanContext"
  Inject :: "SpanContext option \<Rightarrow> serializationFormat \<Rightarrow> (string \<times> string) list \<times> error option"
  Extract :: "serializationFormat \<Rightarrow> gomap \<Rightarrow> error + SpanContext option"

text \<open>
  Modelled from the spec: \<open>shadowTracer.Type\<close> is declared outside tracer.go. It is called
  on a pointer that may be nil; it reports the type tag of the attached backend and
  whether there is one.
\<close>

definition Type :: "shadowTracer option \<Rightarrow> string \<times> bool" where
  "Type st = (case st of None \<Rightarrow> ([], False) | Some s \<Rightarrow> (Type_name s, True))"

text \<open>Spans live in a store and are named by their address.\<close>

type_synonym ref = nat

record Tracer =
  noopSpan :: ref
  t_mode :: mode
  t_useNetTrace :: bool
  t_shadowTracer :: "shadowTracer option"
  activeSpans :: "ref set"

definition getShadowTracer :: "Tracer \<Rightarrow> shadowTracer option" where
  "getShadowTracer t = t_shadowTracer t"

text \<open>\<open>SpanMeta\<close>, with the fields of the struct literal \<open>ExtractMetaFrom\<close> returns.\<close>

record SpanMeta =
  traceID :: uint64
  spanID :: uint64
  shadowTracerType :: string
  shadowCtx :: "SpanContext option"
  recordingType :: RecordingType
  Baggage :: gomap

definition noopSpanMeta :: SpanMeta where
  "noopSpanMeta = \<lparr>traceID = 0, spanID = 0, shadowTracerType = [], shadowCtx = None,
     recordingType = RecordingOff, Baggage = []\<rparr>"

text \<open>
  Modelled from the spec: \<open>SpanMeta.isNilOrNoop\<close> is declared outside tracer.go. The spec:
  a SpanMeta with trace id = 0 and span id = 0 denotes "no tracing in effect".
\<close>

definition isNilOrNoop :: "SpanMeta option \<Rightarrow> bool" where
  "isNilOrNoop sm = (case sm of None \<Rightarrow> True | Some m \<Rightarrow> traceID m = 0 \<and> spanID m = 0)"

subsection \<open>Carriers\<close>

text \<open>
  Modelled from the spec: \<open>metadataCarrier\<close> is declared outside tracer.go; the spec gives
  two carrier kinds, a string-keyed map and RPC metadata headers, behind one key/value
  read-write interface with one logical encoding, so it is given the \<open>Set\<close> and \<open>ForEach\<close>
  that tracer.go defines for \<open>MapCarrier\<close>. \<open>otherCarrier\<close> stands for every other
  implementation of the interface \<open>Carrier\<close>.
\<close>

datatype Carrier = MapCarrier gomap | metadataCarrier gomap | otherCarrier gomap

fun entries :: "Carrier \<Rightarrow> gomap" where
  "entries (MapCarrier m) = m"
| "entries (metadataCarrier m) = m"
| "entries (otherCarrier m) = m"

fun Set_carrier :: "Carrier \<Rightarrow> string \<Rightarrow> string \<Rightarrow> Carrier" where
  "Set_carrier (MapCarrier m) key val = MapCarrier (AList.update key val m)"
| "Set_carrier (metadataCarrier m) key val = metadataCarrier (AList.update key val m)"
| "Set_carrier (otherCarrier m) key val = otherCarrier (AList.update key val m)"

text \<open>\<open>ForEach\<close> stops at the first error of the callback; the callback threads the
  variables it captures.\<close>

fun ForEach_entries :: "(string \<Rightarrow> string \<Rightarrow> 's \<Rightarrow> error + 's) \<Rightarrow> gomap \<Rightarrow> 's \<Rightarrow> error + 's" where
  "ForEach_entries fn [] s = Inr s"
| "ForEach_entries fn ((k, v) # kvs) s =
     (case fn k v s of Inl err \<Rightarrow> Inl err | Inr s' \<Rightarrow> ForEach_entries fn kvs s')"

definition ForEach :: "Carrier \<Rightarrow> (string \<Rightarrow> string \<Rightarrow> 's \<Rightarrow> error + 's) \<Rightarrow> 's \<Rightarrow> error + 's" where
  "ForEach carrier fn s = ForEach_entries fn (entries carrier) s"

fun carrierFormat :: "Carrier \<Rightarrow> serializationFormat option" where
  "carrierFormat (MapCarrier m) = Some mapFormat"
| "carrierFormat (metadataCarrier m) = Some metadataFormat"
| "carrierFormat (otherCarrier m) = None"

subsection \<open>InjectMetaInto\<close>

fun setAll :: "string \<Rightarrow> (string \<times> string) list \<Rightarrow> Carrier \<Rightarrow> Carrier" where
  "setAll prefix [] carrier = carrier"
| "setAll prefix ((k, v) # kvs) carrier = setAll prefix kvs (Set_carrier carrier (prefix @ k) v)"

definition InjectMetaInto :: "Tracer \<Rightarrow> SpanMeta option \<Rightarrow> Carrier \<Rightarrow> error option \<times> Carrier" where
  "InjectMetaInto t sm carrier =
     (if isNilOrNoop sm then (None, carrier)
      else case carrierFormat carrier of
        None \<Rightarrow> (Some unsupported_carrier, carrier)
      | Some format \<Rightarrow>
          (let m = the sm;
               c1 = Set_carrier carrier fieldNameTraceID (FormatUint (traceID m));
               c2 = Set_carrier c1 fieldNameSpanID (FormatUint (spanID m));
               c3 = setAll prefixBaggage (Baggage m) c2
           in case getShadowTracer t of
                None \<Rightarrow> (None, c3)
              | Some shadowTr \<Rightarrow>
                  (let curTyp = fst (Type (Some shadowTr)) in
                   if shadowTracerType m = curTyp then
                     (let c4 = Set_carrier c3 fieldNameShadowType (shadowTracerType m);
                          (sets, err) = Inject shadowTr (shadowCtx m) format
                      in (err, setAll prefixShadow sets c4))
                   else (None, c3))))"

subsection \<open>ExtractMetaFrom\<close>

text \<open>The variables the callback of \<open>ExtractMetaFrom\<close> captures.\<close>

record extractVars =
  x_shadowType :: string
  x_shadowCarrier :: gomap
  x_traceID :: uint64
  x_spanID :: uint64
  x_baggage :: gomap

definition extractVars0 :: extractVars where
  "extractVars0 = \<lparr>x_shadowType = [], x_shadowCarrier = [], x_traceID = 0, x_spanID = 0,
     x_baggage = []\<rparr>"

definition extractField :: "(string \<Rightarrow> string) \<Rightarrow> string \<Rightarrow> string \<Rightarrow> extractVars \<Rightarrow> error + extractVars" where
  "extractField unicodeLower k0 v x =
     (let k = ToLower unicodeLower k0 in
      if k = fieldNameTraceID then
        (case ParseUint v of
           None \<Rightarrow> Inl ErrSpanContextCorrupted
         | Some n \<Rightarrow> Inr (x\<lparr>x_traceID := n\<rparr>))
      else if k = fieldNameSpanID then
        (case ParseUint v of
           None \<Rightarrow> Inl ErrSpanContextCorrupted
         | Some n \<Rightarrow> Inr (x\<lparr>x_spanID := n\<rparr>))
      else if k = fieldNameShadowType then Inr (x\<lparr>x_shadowType := v\<rparr>)
      else if HasPrefix k prefixBaggage then
        Inr (x\<lparr>x_baggage := AList.update (TrimPrefix k prefixBaggage) v (x_baggage x)\<rparr>)
      else if HasPrefix k prefixShadow then
        Inr (x\<lparr>x_shadowCarrier := AList.update (TrimPrefix k prefixShadow) v (x_shadowCarrier x)\<rparr>)
      else Inr x)"

definition baggageRecordingType :: "gomap \<Rightarrow> RecordingType" where
  "baggageRecordingType baggage =
     (case map_of baggage verboseTracingBaggageKey of
        None \<Rightarrow> RecordingOff
      | Some v \<Rightarrow> if v \<noteq> [] then RecordingVerbose else RecordingOff)"

definition ExtractMetaFrom :: "(string \<Rightarrow> string) \<Rightarrow> Tracer \<Rightarrow> Carrier \<Rightarrow> SpanMeta \<times> error option" where
  "ExtractMetaFrom unicodeLower t carrier =
     (case carrierFormat carrier of
        None \<Rightarrow> (noopSpanMeta, Some unsupported_carrier)
      | Some format \<Rightarrow>
          (case ForEach carrier (extractField unicodeLower) extractVars0 of
             Inl err \<Rightarrow> (noopSpanMeta, Some err)
           | Inr x \<Rightarrow>
               if x_traceID x = 0 \<and> x_spanID x = 0 then (noopSpanMeta, None)
               else
                 (let recordingType = baggageRecordingType (x_baggage x) in
                  if x_shadowType x \<noteq> [] then
                    (let shadowTr = getShadowTracer t;
                         curShadowTyp = fst (Type shadowTr)
                     in if x_shadowType x \<noteq> curShadowTyp then
                          (\<lparr>traceID = x_traceID x, spanID = x_spanID x, shadowTracerType = [],
                            shadowCtx = None, recordingType = recordingType,
                            Baggage = x_baggage x\<rparr>, None)
                        else
                          (case Extract (the shadowTr) format (x_shadowCarrier x) of
                             Inl err \<Rightarrow> (noopSpanMeta, Some err)
                           | Inr ctx \<Rightarrow>
                               (\<lparr>traceID = x_traceID x, spanID = x_spanID x,
                                 shadowTracerType = x_shadowType x, shadowCtx = ctx,
                                 recordingType = recordingType, Baggage = x_baggage x\<rparr>, None)))
                  else
                    (\<lparr>traceID = x_traceID x, spanID = x_spanID x, shadowTracerType = x_shadowType x,
                      shadowCtx = None, recordingType = recordingType,
                      Baggage = x_baggage x\<rparr>, None))))"

section \<open>Spans and the tracer's store\<close>

type_synonym logTags = "(string \<times> string) list"

text \<open>
  Modelled from the spec: the structs \<open>crdbSpan\<close>, \<open>otSpan\<close> and \<open>Span\<close> are declared
  outside tracer.go. They have the fields tracer.go reads and writes (\<open>c_\<close> marks the
  fields of \<open>crdbSpan\<close>, whose names \<open>SpanMeta\<close> has too) and, from the data model of the
  spec, the fields of the guarded state that tracer.go does not name: the
  recording-verbosity flag and the tags. The two optional sub-spans, the backend's span
  and the debug sink's trace, record what is mirrored into them.
\<close>

record crdbSpan =
  c_traceID :: uint64
  c_spanID :: uint64
  c_goroutineID :: uint64
  c_operation :: string
  c_startTime :: nat
  c_parentSpanID :: uint64
  c_logTags :: "logTags option"
  c_duration :: int
  c_recordingType :: RecordingType
  c_baggage :: gomap
  c_tags :: gomap

record shadowSpanState =
  ss_context :: SpanContext
  ss_tags :: "(string \<times> string) list"
  ss_baggage :: "(string \<times> string) list"

record otSpan =
  shadowTr :: "shadowTracer option"
  shadowSpan :: "shadowSpanState option"

record netTrace =
  nt_family :: string
  nt_title :: string
  nt_maxEvents :: nat
  nt_events :: "(string \<times> string) list"

text \<open>A \<open>Span\<close>; its \<open>tracer\<close> field is the one tracer of the store it lives in.\<close>

record Span =
  crdb :: "crdbSpan option"
  ot :: otSpan
  netTr :: "netTrace option"

definition otSpan0 :: otSpan where
  "otSpan0 = \<lparr>shadowTr = None, shadowSpan = None\<rparr>"

definition Span0 :: Span where
  "Span0 = \<lparr>crdb = None, ot = otSpan0, netTr = None\<rparr>"

text \<open>
  The store: the tracer, the spans by address (addresses below \<open>nextSpan\<close> are allocated),
  and the number of draws made from the random source of package math/rand.
\<close>

record World =
  tracer :: Tracer
  spans :: "ref \<Rightarrow> Span"
  nextSpan :: ref
  randCalls :: nat

text \<open>
  What the program reads from its surroundings: the sequence of 64-bit values of the random
  source, the clock, the id of the running goroutine.
\<close>

record Env =
  rnd :: "nat \<Rightarrow> uint64"
  now :: nat
  goid :: uint64

text \<open>\<open>rand.Int63\<close>: a non-negative 63-bit integer, the next value of the source masked.\<close>

definition Int63 :: "Env \<Rightarrow> World \<Rightarrow> uint64 \<times> World" where
  "Int63 env w = (take_bit 63 (rnd env (randCalls w)), w\<lparr>randCalls := Suc (randCalls w)\<rparr>)"

definition alloc :: "Span \<Rightarrow> World \<Rightarrow> ref \<times> World" where
  "alloc s w = (nextSpan w, w\<lparr>spans := (spans w)(nextSpan w := s), nextSpan := Suc (nextSpan w)\<rparr>)"

text \<open>\<open>NewTracer\<close>: the tracer, with its registry empty and its no-op span allocated.\<close>

definition NewTracer :: World where
  "NewTracer =
     \<lparr>tracer = \<lparr>noopSpan = 0, t_mode = modeLegacy, t_useNetTrace = False,
        t_shadowTracer = None, activeSpans = {}\<rparr>,
      spans = (\<lambda>r. Span0), nextSpan = 1, randCalls = 0\<rparr>"

definition useNetTrace :: "Tracer \<Rightarrow> bool" where
  "useNetTrace t = t_useNetTrace t"

definition AlwaysTrace :: "Tracer \<Rightarrow> bool" where
  "AlwaysTrace t = (useNetTrace t \<or> getShadowTracer t \<noteq> None)"

subsection \<open>Contexts\<close>

text \<open>
  A \<open>context.Context\<close>, as far as the tracer looks into it: the log tags and the span it
  carries. \<open>noCtx\<close> is the context \<open>StartSpan\<close> passes.
\<close>

datatype Context = noCtx | Ctx "logTags option" "ref option"

fun FromContext :: "Context \<Rightarrow> logTags option" where
  "FromContext noCtx = None"
| "FromContext (Ctx tags sp) = tags"

text \<open>
  Modelled from the spec: \<open>maybeWrapCtx\<close> is declared outside tracer.go. What it returns is
  fixed by the doc comment of \<open>startSpanGeneric\<close> in tracer.go: for \<open>ctx == noCtx\<close> the
  returned Context is the supplied one; otherwise the returned Context embeds the returned
  Span. The second argument, the preallocated context to wrap with, has no effect on the
  value.
\<close>

fun maybeWrapCtx :: "Context \<Rightarrow> bool \<Rightarrow> ref \<Rightarrow> Context \<times> ref" where
  "maybeWrapCtx noCtx octx sp = (noCtx, sp)"
| "maybeWrapCtx (Ctx tags old) octx sp = (Ctx tags (Some sp), sp)"

subsection \<open>Operations on spans\<close>

text \<open>
  Modelled from the spec: \<open>Span.isNoop\<close>, \<open>Span.SetTag\<close>, \<open>Span.SetBaggageItem\<close> and
  \<open>crdbSpan.enableRecording\<close> are declared outside tracer.go. The spec: the no-op span is
  the one without a span record; \<open>SetTag\<close> and \<open>SetBaggageItem\<close> mutate the guarded record
  state, mirror into any attached sub-span and are no-ops on the no-op span;
  the recording verbosity of a new span is the one determined from its parent.
\<close>

definition isNoop :: "Span \<Rightarrow> bool" where
  "isNoop s = (crdb s = None)"

definition mirrorTag :: "string \<Rightarrow> string \<Rightarrow> Span \<Rightarrow> Span" where
  "mirrorTag k v s =
     s\<lparr>ot := (case shadowSpan (ot s) of
                None \<Rightarrow> ot s
              | Some ss \<Rightarrow> (ot s)\<lparr>shadowSpan := Some (ss\<lparr>ss_tags := ss_tags ss @ [(k, v)]\<rparr>)\<rparr>),
       netTr := (case netTr s of
                None \<Rightarrow> None
              | Some nt \<Rightarrow> Some (nt\<lparr>nt_events := nt_events nt @ [(k, v)]\<rparr>))\<rparr>"

definition mirrorBaggage :: "string \<Rightarrow> string \<Rightarrow> Span \<Rightarrow> Span" where
  "mirrorBaggage k v s =
     s\<lparr>ot := (case shadowSpan (ot s) of
                None \<Rightarrow> ot s
              | Some ss \<Rightarrow> (ot s)\<lparr>shadowSpan := Some (ss\<lparr>ss_baggage := ss_baggage ss @ [(k, v)]\<rparr>)\<rparr>),
       netTr := (case netTr s of
                None \<Rightarrow> None
              | Some nt \<Rightarrow> Some (nt\<lparr>nt_events := nt_events nt @ [(k, v)]\<rparr>))\<rparr>"

definition SetTag :: "ref \<Rightarrow> string \<Rightarrow> string \<Rightarrow> World \<Rightarrow> World" where
  "SetTag s k v w =
     (case crdb (spans w s) of
        None \<Rightarrow> w
      | Some c \<Rightarrow>
          w\<lparr>spans := (spans w)(s := mirrorTag k v
              ((spans w s)\<lparr>crdb := Some (c\<lparr>c_tags := AList.update k v (c_tags c)\<rparr>)\<rparr>))\<rparr>)"

definition SetBaggageItem :: "ref \<Rightarrow> string \<Rightarrow> string \<Rightarrow> World \<Rightarrow> World" where
  "SetBaggageItem s k v w =
     (case crdb (spans w s) of
        None \<Rightarrow> w
      | Some c \<Rightarrow>
          w\<lparr>spans := (spans w)(s := mirrorBaggage k v
              ((spans w s)\<lparr>crdb := Some (c\<lparr>c_baggage := AList.update k v (c_baggage c)\<rparr>)\<rparr>))\<rparr>)"

definition enableRecording :: "crdbSpan option \<Rightarrow> RecordingType \<Rightarrow> crdbSpan \<Rightarrow> crdbSpan" where
  "enableRecording parent recType c = c\<lparr>c_recordingType := recType\<rparr>"

text \<open>The two \<open>range\<close> loops that call \<open>SetTag\<close> and \<open>SetBaggageItem\<close> for every entry.\<close>

fun setTags :: "ref \<Rightarrow> gomap \<Rightarrow> World \<Rightarrow> World" where
  "setTags s [] w = w"
| "setTags s ((k, v) # kvs) w = setTags s kvs (SetTag s k v w)"

fun setBaggageItems :: "ref \<Rightarrow> gomap \<Rightarrow> World \<Rightarrow> World" where
  "setBaggageItems s [] w = w"
| "setBaggageItems s ((k, v) # kvs) w = setBaggageItems s kvs (SetBaggageItem s k v w)"

subsection \<open>Span options\<close>

text \<open>
  Modelled from the spec: the struct \<open>spanOptions\<close> is declared outside tracer.go. Its
  fields are the ones tracer.go uses, which are the members of the option set the spec
  lists. \<open>Parent\<close> is the address of the local parent span, \<open>RemoteParent\<close> the SpanMeta of
  a remote one.
\<close>

record spanOptions =
  Parent :: "ref option"
  RemoteParent :: "SpanMeta option"
  RefType :: SpanReferenceType
  LogTags :: "logTags option"
  Tags :: gomap
  ForceRealSpan :: bool
  BypassRegistry :: bool

text \<open>The zero value \<open>var opts spanOptions\<close>.\<close>

definition spanOptions0 :: spanOptions where
  "spanOptions0 = \<lparr>Parent = None, RemoteParent = None, RefType = ChildOfRef, LogTags = None,
     Tags = [], ForceRealSpan = False, BypassRegistry = False\<rparr>"

text \<open>
  Modelled from the spec: the methods \<open>parentTraceID\<close>, \<open>parentSpanID\<close>, \<open>recordingType\<close>
  and \<open>shadowTrTyp\<close> of \<open>spanOptions\<close> are declared outside tracer.go. The spec: the trace
  id is the parent's if one is provided; a local parent propagates its recording type, a
  remote parent's flag is used only if there is no local parent, and with neither there is
  no recording; the backend type of the parent reference is that of the local parent's
  backend span or the one a remote parent names, and may be unset.
\<close>

definition parentTraceID :: "World \<Rightarrow> spanOptions \<Rightarrow> uint64" where
  "parentTraceID w opts =
     (case Parent opts of
        Some p \<Rightarrow> (case crdb (spans w p) of Some c \<Rightarrow> c_traceID c | None \<Rightarrow> 0)
      | None \<Rightarrow> (case RemoteParent opts of Some m \<Rightarrow> traceID m | None \<Rightarrow> 0))"

definition parentSpanID :: "World \<Rightarrow> spanOptions \<Rightarrow> uint64" where
  "parentSpanID w opts =
     (case Parent opts of
        Some p \<Rightarrow> (case crdb (spans w p) of Some c \<Rightarrow> c_spanID c | None \<Rightarrow> 0)
      | None \<Rightarrow> (case RemoteParent opts of Some m \<Rightarrow> spanID m | None \<Rightarrow> 0))"

definition opts_recordingType :: "World \<Rightarrow> spanOptions \<Rightarrow> RecordingType" where
  "opts_recordingType w opts =
     (case Parent opts of
        Some p \<Rightarrow> (case crdb (spans w p) of Some c \<Rightarrow> c_recordingType c | None \<Rightarrow> RecordingOff)
      | None \<Rightarrow> (case RemoteParent opts of Some m \<Rightarrow> recordingType m | None \<Rightarrow> RecordingOff))"

definition shadowTrTyp :: "World \<Rightarrow> spanOptions \<Rightarrow> string \<times> bool" where
  "shadowTrTyp w opts =
     (case Parent opts of
        Some p \<Rightarrow> Type (shadowTr (ot (spans w p)))
      | None \<Rightarrow> (case RemoteParent opts of
                  Some m \<Rightarrow> (shadowTracerType m, shadowTracerType m \<noteq> [])
                | None \<Rightarrow> ([], False)))"

subsection \<open>The sub-spans\<close>

text \<open>
  Modelled from the spec: \<open>makeShadowSpan\<close> and \<open>setLogTags\<close> are declared outside
  tracer.go, and \<open>trace.New\<close> is the debug sink's. The spec: an external sub-span is created
  through the backend's create operation, a debug sub-span similarly, and log tags are
  forwarded to them as tags.
\<close>

definition makeShadowSpan :: "shadowTracer \<Rightarrow> SpanContext option \<Rightarrow> SpanReferenceType \<Rightarrow> string \<Rightarrow> nat \<Rightarrow> otSpan" where
  "makeShadowSpan st parentCtx refType opName startTime =
     \<lparr>shadowTr = Some st,
      shadowSpan = Some \<lparr>ss_context = Create st parentCtx refType opName startTime,
        ss_tags = [], ss_baggage = []\<rparr>\<rparr>"

definition shadowSetLogTags :: "logTags \<Rightarrow> otSpan \<Rightarrow> otSpan" where
  "shadowSetLogTags tags o1 =
     (case shadowSpan o1 of
        None \<Rightarrow> o1
      | Some ss \<Rightarrow> o1\<lparr>shadowSpan := Some (ss\<lparr>ss_tags := ss_tags ss @ tags\<rparr>)\<rparr>)"

definition trace_New :: "string \<Rightarrow> string \<Rightarrow> netTrace" where
  "trace_New family title = \<lparr>nt_family = family, nt_title = title, nt_maxEvents = 0, nt_events = []\<rparr>"

definition maxLogsPerSpan :: nat where
  "maxLogsPerSpan = 1000"

subsection \<open>StartSpanCtx\<close>

datatype panic = Panic string

text \<open>
  The part of \<open>startSpanGeneric\<close> after the no-op return, where the span is really
  created, block by block. First the log tags: without log tags in the options, those of
  a real local parent are used.
\<close>

definition inheritLogTags :: "World \<Rightarrow> spanOptions \<Rightarrow> spanOptions" where
  "inheritLogTags w opts =
     (if LogTags opts = None \<and> Parent opts \<noteq> None \<and> \<not> isNoop (spans w (the (Parent opts)))
      then opts\<lparr>LogTags := c_logTags (the (crdb (spans w (the (Parent opts)))))\<rparr>
      else opts)"

text \<open>The external spans: the shadow tracer's, unless the parent's came from a tracer of
  another type, and the net/trace one.\<close>

definition newShadowSpan :: "World \<Rightarrow> spanOptions \<Rightarrow> string \<Rightarrow> nat \<Rightarrow> otSpan" where
  "newShadowSpan w opts opName startTime =
     (let curShadowTr = getShadowTracer (tracer w);
          (typ1, ok1) = shadowTrTyp w opts;
          (typ2, ok2) = Type curShadowTr
      in if ok2 \<and> (\<not> ok1 \<or> typ1 = typ2) then
           (let shadowCtx =
                  (case Parent opts of
                     None \<Rightarrow> None
                   | Some p \<Rightarrow> map_option ss_context (shadowSpan (ot (spans w p))));
                o1 = makeShadowSpan (the curShadowTr) shadowCtx (RefType opts) opName startTime
            in case LogTags opts of None \<Rightarrow> o1 | Some tags \<Rightarrow> shadowSetLogTags tags o1)
         else otSpan0)"

definition newNetTrace :: "World \<Rightarrow> spanOptions \<Rightarrow> string \<Rightarrow> netTrace option" where
  "newNetTrace w opts opName =
     (if useNetTrace (tracer w) then
        (let nt = (trace_New ''tracing'' opName)\<lparr>nt_maxEvents := maxLogsPerSpan\<rparr>
         in case LogTags opts of
              None \<Rightarrow> Some nt
            | Some tags \<Rightarrow> Some (nt\<lparr>nt_events := nt_events nt @ tags\<rparr>))
      else None)"

text \<open>The ids: the parent's trace id, or a random one when that is 0; a random span id.\<close>

definition newIDs :: "Env \<Rightarrow> World \<Rightarrow> spanOptions \<Rightarrow> (uint64 \<times> uint64) \<times> World" where
  "newIDs env w opts =
     (let traceID0 = parentTraceID w opts;
          (traceID1, w1) = (if traceID0 = 0 then Int63 env w else (traceID0, w));
          (spanID1, w2) = Int63 env w1
      in ((traceID1, spanID1), w2))"

text \<open>
  The last block: the baggage of a real local parent is copied; without a local parent
  the span goes into the registry of active spans unless the options bypass it, and the
  baggage of a remote parent is copied.
\<close>

definition copyBaggageOrRegister :: "ref \<Rightarrow> spanOptions \<Rightarrow> World \<Rightarrow> World" where
  "copyBaggageOrRegister s opts w =
     (case Parent opts of
        Some pr \<Rightarrow>
          if \<not> isNoop (spans w pr)
          then setBaggageItems s (c_baggage (the (crdb (spans w pr)))) w
          else w
      | None \<Rightarrow>
          (let w1 = (if \<not> BypassRegistry opts
                     then w\<lparr>tracer := (tracer w)\<lparr>activeSpans := insert s (activeSpans (tracer w))\<rparr>\<rparr>
                     else w)
           in case RemoteParent opts of
                Some m \<Rightarrow> setBaggageItems s (Baggage m) w1
              | None \<Rightarrow> w1))"

definition startRealSpan :: "Env \<Rightarrow> World \<Rightarrow> Context \<Rightarrow> string \<Rightarrow> spanOptions \<Rightarrow> (Context \<times> ref) \<times> World" where
  "startRealSpan env w ctx opName opts0 =
     (let opts = inheritLogTags w opts0;
          startTime = now env;
          ot1 = newShadowSpan w opts opName startTime;
          netTr1 = newNetTrace w opts opName;
          ((traceID1, spanID1), w2) = newIDs env w opts;
          goroutineID = goid env;
          crdbSpan1 = \<lparr>c_traceID = traceID1, c_spanID = spanID1, c_goroutineID = goroutineID,
             c_operation = opName, c_startTime = startTime, c_parentSpanID = parentSpanID w opts,
             c_logTags = LogTags opts, c_duration = - 1, c_recordingType = RecordingOff,
             c_baggage = [], c_tags = []\<rparr>;
          p = (case Parent opts of None \<Rightarrow> None | Some pr \<Rightarrow> crdb (spans w pr));
          crdbSpan2 = enableRecording p (opts_recordingType w opts) crdbSpan1;
          (s, w3) = alloc \<lparr>crdb = Some crdbSpan2, ot = ot1, netTr = netTr1\<rparr> w2;
          w4 = setTags s (Tags opts) w3;
          w5 = copyBaggageOrRegister s opts w4
      in (maybeWrapCtx ctx True s, w5))"

definition startSpanGeneric :: "Env \<Rightarrow> World \<Rightarrow> Context \<Rightarrow> string \<Rightarrow> spanOptions \<Rightarrow> panic + (Context \<times> ref) \<times> World" where
  "startSpanGeneric env w ctx opName opts0 =
     (let t = tracer w in
      if RefType opts0 \<noteq> ChildOfRef \<and> RefType opts0 \<noteq> FollowsFromRef
      then Inl (Panic ''unexpected RefType'')
      else if Parent opts0 \<noteq> None \<and> RemoteParent opts0 \<noteq> None
      then Inl (Panic ''can't specify both Parent and RemoteParent'')
      else
        (let opts1 = (if t_mode t = modeBackground then opts0\<lparr>ForceRealSpan := True\<rparr> else opts0);
             opts = (if LogTags opts1 = None then opts1\<lparr>LogTags := FromContext ctx\<rparr> else opts1)
         in if \<not> AlwaysTrace t \<and> opts_recordingType w opts = RecordingOff \<and> \<not> ForceRealSpan opts
            then Inr (maybeWrapCtx ctx False (noopSpan t), w)
            else Inr (startRealSpan env w ctx opName opts)))"

text \<open>
  \<open>StartSpanCtx\<close> applies the options, each a function on \<open>spanOptions\<close>, to the zero
  value in order. \<open>StartSpan\<close> passes \<open>noCtx\<close> and drops the context.
\<close>

definition StartSpanCtx :: "Env \<Rightarrow> World \<Rightarrow> Context \<Rightarrow> string \<Rightarrow> (spanOptions \<Rightarrow> spanOptions) list \<Rightarrow> panic + (Context \<times> ref) \<times> World" where
  "StartSpanCtx env w ctx operationName os =
     startSpanGeneric env w ctx operationName (fold (\<lambda>opt opts. opt opts) os spanOptions0)"

definition StartSpan :: "Env \<Rightarrow> World \<Rightarrow> string \<Rightarrow> (spanOptions \<Rightarrow> spanOptions) list \<Rightarrow> panic + ref \<times> World" where
  "StartSpan env w operationName os =
     (case StartSpanCtx env w noCtx operationName os of
        Inl p \<Rightarrow> Inl p
      | Inr ((ctx, sp), w') \<Rightarrow> Inr (sp, w'))"

section \<open>Strings and numbers\<close>

lemma lowerByte_noupper: "\<not> list_ex isUpper s \<Longrightarrow> map lowerByte s = s"
  by (induction s) (auto simp: lowerByte_def)

lemma ToLower_ascii: "list_all isASCII s \<Longrightarrow> ToLower U s = map lowerByte s"
  by (simp add: ToLower_def lowerByte_noupper)

lemma ToLower_append_ascii:
  "list_all isASCII p \<Longrightarrow> ToLower U (p @ k) = map lowerByte p @ ToLower U k"
proof (cases "list_all isASCII k")
  case True
  assume "list_all isASCII p"
  with True show ?thesis by (simp add: ToLower_ascii)
next
  case False
  assume p: "list_all isASCII p"
  then have "\<forall>x\<in>set p. isASCII x" by (simp add: list_all_iff)
  then have "takeWhile isASCII (p @ k) = p @ takeWhile isASCII k"
    "dropWhile isASCII (p @ k) = dropWhile isASCII k"
    by simp_all
  with False p show ?thesis by (simp add: ToLower_def)
qed

lemma HasPrefix_append: "HasPrefix (p @ k) p"
  by (simp add: HasPrefix_def)

lemma TrimPrefix_append: "TrimPrefix (p @ k) p = k"
  by (simp add: TrimPrefix_def HasPrefix_def)

lemma HasPrefix_split: "HasPrefix s p \<Longrightarrow> s = p @ TrimPrefix s p"
  by (simp add: TrimPrefix_def HasPrefix_def) (metis append_take_drop_id)

lemma parseHex_snoc:
  "parseHex n (cs @ [c]) =
     (case parseHex n cs of None \<Rightarrow> None
      | Some m \<Rightarrow> (case hexVal c of None \<Rightarrow> None
          | Some d \<Rightarrow> if 2 ^ 64 \<le> m * 16 + d then None else Some (m * 16 + d)))"
  by (induction cs arbitrary: n) (auto split: option.splits)

lemma hexVal_hexDigit: "d < 16 \<Longrightarrow> hexVal (hexDigit d) = Some d"
proof -
  assume "d < 16"
  then have "d = 0 \<or> d = 1 \<or> d = 2 \<or> d = 3 \<or> d = 4 \<or> d = 5 \<or> d = 6 \<or> d = 7 \<or> d = 8
    \<or> d = 9 \<or> d = 10 \<or> d = 11 \<or> d = 12 \<or> d = 13 \<or> d = 14 \<or> d = 15" by arith
  then show ?thesis
    by (elim disjE) (simp_all add: hexVal_def hexDigit_def digits_def)
qed

lemma formatHex_nonempty: "formatHex n \<noteq> []"
  by (subst formatHex.simps) simp

lemma parseHex_formatHex: "n < 2 ^ 64 \<Longrightarrow> parseHex 0 (formatHex n) = Some n"
proof (induction n rule: formatHex.induct)
  case (1 n)
  show ?case
  proof (cases "n < 16")
    case True
    then show ?thesis by (subst formatHex.simps) (simp add: hexVal_hexDigit)
  next
    case False
    have "n div 16 < 2 ^ 64" using "1.prems" by simp
    with False "1.IH" have "parseHex 0 (formatHex (n div 16)) = Some (n div 16)" by simp
    with False "1.prems" show ?thesis
      by (subst formatHex.simps) (simp add: parseHex_snoc hexVal_hexDigit)
  qed
qed

lemma ParseUint_FormatUint: "ParseUint (FormatUint x) = Some x"
proof -
  have "unat x < 2 ^ 64" using unsigned_less [of x] by simp
  then show ?thesis
    by (simp add: ParseUint_def FormatUint_def formatHex_nonempty parseHex_formatHex)
qed

lemma foldl_hex_mono:
  "n \<le> foldl (\<lambda>n c. n * 16 + the (hexVal c)) n cs"
proof (induction cs arbitrary: n)
  case Nil
  then show ?case by simp
next
  case (Cons c cs)
  have "n \<le> n * 16 + the (hexVal c)" by simp
  also have "\<dots> \<le> foldl (\<lambda>n c. n * 16 + the (hexVal c)) (n * 16 + the (hexVal c)) cs"
    by (rule Cons.IH)
  finally show ?case by simp
qed

lemma parseHex_None_iff:
  "n < 2 ^ 64 \<Longrightarrow>
   parseHex n cs = None \<longleftrightarrow>
     \<not> list_all (\<lambda>c. hexVal c \<noteq> None) cs
     \<or> 2 ^ 64 \<le> foldl (\<lambda>n c. n * 16 + the (hexVal c)) n cs"
proof (induction cs arbitrary: n)
  case Nil
  then show ?case by simp
next
  case (Cons c cs)
  show ?case
  proof (cases "hexVal c")
    case None
    then show ?thesis by simp
  next
    case (Some d)
    show ?thesis
    proof (cases "2 ^ 64 \<le> n * 16 + d")
      case True
      then have "2 ^ 64 \<le> foldl (\<lambda>n c. n * 16 + the (hexVal c)) (n * 16 + d) cs"
        using foldl_hex_mono [of "n * 16 + d" cs] by linarith
      then show ?thesis using Some True by simp
    next
      case False
      then have "n * 16 + d < 2 ^ 64" by simp
      from Cons.IH [OF this] show ?thesis using Some False by simp
    qed
  qed
qed

text \<open>What \<open>strconv.ParseUint(v, 16, 64)\<close> rejects: the empty string, a string with a byte
  that is no hex digit, and a number that does not fit 64 bits.\<close>

lemma ParseUint_None_iff:
  "ParseUint v = None \<longleftrightarrow>
     v = [] \<or> \<not> list_all (\<lambda>c. hexVal c \<noteq> None) v
     \<or> 2 ^ 64 \<le> foldl (\<lambda>n c. n * 16 + the (hexVal c)) 0 v"
  using parseHex_None_iff [of 0 v] by (simp add: ParseUint_def)

section \<open>No tracing: nothing is injected\<close>

text \<open>
  C8. For a SpanMeta that denotes "no tracing" (nil, or trace id and span id both zero),
  \<open>InjectMetaInto\<close> returns nil and the carrier is as it was: no key is written, whatever
  the carrier (the test comes before the switch on the carrier's type) and whatever the
  tracer's backend.
\<close>

theorem InjectMetaInto_noop_writes_nothing:
  "sm = None \<or> (\<exists>m. sm = Some m \<and> traceID m = 0 \<and> spanID m = 0) \<Longrightarrow>
   InjectMetaInto t sm carrier = (None, carrier)"
  by (auto simp: InjectMetaInto_def isNilOrNoop_def)

theorem InjectMetaInto_noop_writes_nothing_witness:
  "InjectMetaInto \<lparr>noopSpan = 0, t_mode = modeLegacy, t_useNetTrace = False,
      t_shadowTracer = None, activeSpans = {}\<rparr>
     (Some (noopSpanMeta\<lparr>Baggage := [(''k'', ''v'')]\<rparr>)) (MapCarrier [(''a'', ''b'')])
   = (None, MapCarrier [(''a'', ''b'')])"
  using InjectMetaInto_noop_writes_nothing
    [of "Some (noopSpanMeta\<lparr>Baggage := [(''k'', ''v'')]\<rparr>)"
        "\<lparr>noopSpan = 0, t_mode = modeLegacy, t_useNetTrace = False,
          t_shadowTracer = None, activeSpans = {}\<rparr>" "MapCarrier [(''a'', ''b'')]"]
  by (simp add: noopSpanMeta_def)

section \<open>Lemmas on the wire format\<close>

lemma extractField_error:
  "extractField U k v x = Inl err \<Longrightarrow> err = ErrSpanContextCorrupted"
  by (auto simp: extractField_def Let_def split: if_splits option.splits)

lemma extractField_corrupted:
  "ToLower U k = fieldNameTraceID \<or> ToLower U k = fieldNameSpanID \<Longrightarrow> ParseUint v = None \<Longrightarrow>
   extractField U k v x = Inl ErrSpanContextCorrupted"
  by (auto simp: extractField_def Let_def)

lemma ForEach_entries_corrupted:
  "(k, v) \<in> set kvs \<Longrightarrow> ToLower U k = fieldNameTraceID \<or> ToLower U k = fieldNameSpanID \<Longrightarrow>
   ParseUint v = None \<Longrightarrow>
   ForEach_entries (extractField U) kvs x = Inl ErrSpanContextCorrupted"
proof (induction kvs arbitrary: x)
  case Nil
  then show ?case by simp
next
  case (Cons kv kvs)
  obtain k' v' where kv: "kv = (k', v')" by (cases kv)
  show ?case
  proof (cases "extractField U k' v' x")
    case (Inl err)
    then show ?thesis using extractField_error [OF Inl] kv by simp
  next
    case (Inr x')
    have "(k, v) \<in> set kvs"
      using Cons.prems Inr kv extractField_corrupted [of U k v x] by auto
    then show ?thesis using Cons.IH Cons.prems(2,3) Inr kv by simp
  qed
qed

lemma extractField_key:
  "ToLower U k = ToLower U k' \<Longrightarrow> extractField U k v x = extractField U k' v x"
  by (simp add: extractField_def)

lemma ForEach_entries_case:
  "list_all2 (\<lambda>a b. ToLower U (fst a) = ToLower U (fst b) \<and> snd a = snd b) kvs kvs' \<Longrightarrow>
   ForEach_entries (extractField U) kvs x = ForEach_entries (extractField U) kvs' x"
proof (induction kvs kvs' arbitrary: x rule: list_all2_induct)
  case Nil
  then show ?case by simp
next
  case (Cons a kvs b kvs')
  obtain k v where a: "a = (k, v)" by (cases a)
  obtain k' v' where b: "b = (k', v')" by (cases b)
  from Cons.hyps(1) a b have "extractField U k v x = extractField U k' v' x"
    by (simp add: extractField_key [of U k k'])
  then show ?case using Cons.IH a b by (simp split: sum.splits)
qed

lemma ExtractMetaFrom_recordingType:
  "(recordingType (fst (ExtractMetaFrom U t carrier)) = RecordingVerbose) =
   (\<exists>v. map_of (Baggage (fst (ExtractMetaFrom U t carrier))) verboseTracingBaggageKey = Some v \<and> v \<noteq> [])"
  by (auto simp: ExtractMetaFrom_def noopSpanMeta_def baggageRecordingType_def Let_def
      split: option.splits sum.splits if_splits)

lemma InjectMetaInto_recordingType:
  "InjectMetaInto t (Some (sm\<lparr>recordingType := r\<rparr>)) carrier = InjectMetaInto t (Some sm) carrier"
  by (simp add: InjectMetaInto_def isNilOrNoop_def Let_def split: option.splits)

lemma lower_consts:
  "ToLower U fieldNameTraceID = fieldNameTraceID"
  "ToLower U fieldNameSpanID = fieldNameSpanID"
  "ToLower U fieldNameShadowType = fieldNameShadowType"
  by (simp_all add: ToLower_def fieldNameTraceID_def fieldNameSpanID_def fieldNameShadowType_def
      prefixTracerState_def isASCII_def isUpper_def)

lemma lower_prefixBaggage: "ToLower U (prefixBaggage @ k) = prefixBaggage @ ToLower U k"
proof -
  have "list_all isASCII prefixBaggage" "map lowerByte prefixBaggage = prefixBaggage"
    by (simp_all add: prefixBaggage_def isASCII_def lowerByte_def isUpper_def)
  then show ?thesis by (simp add: ToLower_append_ascii)
qed

lemma lower_prefixShadow: "ToLower U (prefixShadow @ k) = prefixShadow @ ToLower U k"
proof -
  have "list_all isASCII prefixShadow" "map lowerByte prefixShadow = prefixShadow"
    by (simp_all add: prefixShadow_def isASCII_def lowerByte_def isUpper_def)
  then show ?thesis by (simp add: ToLower_append_ascii)
qed

lemma prefixes_apart:
  "prefixBaggage @ a \<noteq> fieldNameTraceID" "prefixBaggage @ a \<noteq> fieldNameSpanID"
  "prefixBaggage @ a \<noteq> fieldNameShadowType" "prefixBaggage @ a \<noteq> prefixShadow @ b"
  "prefixShadow @ b \<noteq> fieldNameTraceID" "prefixShadow @ b \<noteq> fieldNameSpanID"
  "prefixShadow @ b \<noteq> fieldNameShadowType"
  "fieldNameTraceID \<noteq> fieldNameSpanID" "fieldNameTraceID \<noteq> fieldNameShadowType"
  "fieldNameSpanID \<noteq> fieldNameShadowType"
  by (simp_all add: prefixBaggage_def prefixShadow_def fieldNameTraceID_def fieldNameSpanID_def
      fieldNameShadowType_def prefixTracerState_def)

lemma prefixes_apart_sym:
  "fieldNameTraceID \<noteq> prefixBaggage @ a" "fieldNameSpanID \<noteq> prefixBaggage @ a"
  "fieldNameShadowType \<noteq> prefixBaggage @ a" "prefixShadow @ b \<noteq> prefixBaggage @ a"
  using prefixes_apart(1-4) [of a] by simp_all metis

lemma ForEach_entries_invariant:
  assumes "ForEach_entries fn kvs x = Inr x'"
    and "\<And>k v y y'. (k, v) \<in> set kvs \<Longrightarrow> fn k v y = Inr y' \<Longrightarrow> hit k \<Longrightarrow> P y'"
    and "\<And>k v y y'. (k, v) \<in> set kvs \<Longrightarrow> fn k v y = Inr y' \<Longrightarrow> \<not> hit k \<Longrightarrow> P y \<Longrightarrow> P y'"
    and "(\<exists>k v. (k, v) \<in> set kvs \<and> hit k) \<or> P x"
  shows "P x'"
  using assms
proof (induction kvs arbitrary: x)
  case Nil
  then show ?case by simp
next
  case (Cons kv kvs)
  obtain k v where kv: "kv = (k, v)" by (cases kv)
  from Cons.prems(1) kv obtain y where y: "fn k v x = Inr y"
    and rest: "ForEach_entries fn kvs y = Inr x'"
    by (auto split: sum.splits)
  have "(\<exists>k v. (k, v) \<in> set kvs \<and> hit k) \<or> P y"
  proof (cases "hit k")
    case True
    then have "P y" using Cons.prems(2) [of k v x y] y kv by simp
    then show ?thesis ..
  next
    case False
    then show ?thesis using Cons.prems(3) [of k v x y] Cons.prems(4) y kv by auto
  qed
  then show ?case
    using Cons.IH [OF rest] Cons.prems(2,3) by (metis list.set_intros(2))
qed

lemma extractField_traceID:
  "extractField U k v x = Inr x' \<Longrightarrow>
   (if ToLower U k = fieldNameTraceID then ParseUint v = Some (x_traceID x')
    else x_traceID x' = x_traceID x)"
  by (auto simp: extractField_def Let_def split: if_splits option.splits)

lemma extractField_spanID:
  "extractField U k v x = Inr x' \<Longrightarrow>
   (if ToLower U k = fieldNameSpanID then ParseUint v = Some (x_spanID x')
    else x_spanID x' = x_spanID x)"
  using prefixes_apart(8)
  by (auto simp: extractField_def Let_def split: if_splits option.splits)

lemma TrimPrefix_eq: "HasPrefix s p \<Longrightarrow> (TrimPrefix s p = key) = (s = p @ key)"
  using HasPrefix_split [of s p] by (auto simp: TrimPrefix_append)

lemma extractField_baggage:
  assumes "extractField U k v x = Inr x'"
  shows "map_of (x_baggage x') key =
     (if ToLower U k = prefixBaggage @ key then Some v else map_of (x_baggage x) key)"
proof (cases "ToLower U k = fieldNameTraceID \<or> ToLower U k = fieldNameSpanID
    \<or> ToLower U k = fieldNameShadowType")
  case True
  then have "x_baggage x' = x_baggage x"
    using assms by (auto simp: extractField_def Let_def split: if_splits option.splits)
  moreover have "ToLower U k \<noteq> prefixBaggage @ key"
    using True prefixes_apart(1,2,3) [of key] by auto
  ultimately show ?thesis by simp
next
  case False
  show ?thesis
  proof (cases "HasPrefix (ToLower U k) prefixBaggage")
    case True
    then have "x_baggage x' = AList.update (TrimPrefix (ToLower U k) prefixBaggage) v (x_baggage x)"
      using assms False by (auto simp: extractField_def Let_def)
    then have "map_of (x_baggage x') key =
        (if TrimPrefix (ToLower U k) prefixBaggage = key then Some v else map_of (x_baggage x) key)"
      by (auto simp: update_conv)
    then show ?thesis
      by (simp only: TrimPrefix_eq [OF True, of key])
  next
    case nb: False
    then have "x_baggage x' = x_baggage x"
      using assms False by (auto simp: extractField_def Let_def split: if_splits)
    moreover have "ToLower U k \<noteq> prefixBaggage @ key"
      using nb HasPrefix_append [of prefixBaggage key] by auto
    ultimately show ?thesis by simp
  qed
qed

lemma ForEach_entries_ok:
  "(\<And>k v. (k, v) \<in> set kvs \<Longrightarrow> ToLower U k = fieldNameTraceID \<or> ToLower U k = fieldNameSpanID \<Longrightarrow>
      ParseUint v \<noteq> None) \<Longrightarrow>
   \<exists>x'. ForEach_entries (extractField U) kvs x = Inr x'"
proof (induction kvs arbitrary: x)
  case Nil
  then show ?case by simp
next
  case (Cons kv kvs)
  obtain k v where kv: "kv = (k, v)" by (cases kv)
  have "\<exists>y. extractField U k v x = Inr y"
    using Cons.prems [of k v] kv
    by (auto simp: extractField_def Let_def split: option.splits)
  then obtain y where y: "extractField U k v x = Inr y" ..
  have "\<exists>x'. ForEach_entries (extractField U) kvs y = Inr x'"
    using Cons.IH [of y] Cons.prems by auto
  then show ?case using y kv by simp
qed

lemma entries_Set_carrier: "entries (Set_carrier c k v) = AList.update k v (entries c)"
  by (cases c) simp_all

lemma carrierFormat_Set_carrier: "carrierFormat (Set_carrier c k v) = carrierFormat c"
  by (cases c) simp_all

lemma carrierFormat_setAll: "carrierFormat (setAll p kvs c) = carrierFormat c"
  by (induction p kvs c rule: setAll.induct) (simp_all add: carrierFormat_Set_carrier)

lemma distinct_setAll:
  "distinct (map fst (entries c)) \<Longrightarrow> distinct (map fst (entries (setAll p kvs c)))"
  by (induction p kvs c rule: setAll.induct) (simp_all add: entries_Set_carrier distinct_update)

lemma keys_setAll:
  "fst ` set (entries (setAll p kvs c)) = fst ` set (entries c) \<union> (\<lambda>k. p @ k) ` fst ` set kvs"
  by (induction p kvs c rule: setAll.induct) (auto simp: entries_Set_carrier dom_update)

lemma setAll_other:
  "(\<And>k. k \<in> fst ` set kvs \<Longrightarrow> key \<noteq> p @ k) \<Longrightarrow>
   map_of (entries (setAll p kvs c)) key = map_of (entries c) key"
proof (induction p kvs c rule: setAll.induct)
  case (1 p c)
  then show ?case by simp
next
  case (2 p k v kvs c)
  have "map_of (entries (setAll p kvs (Set_carrier c (p @ k) v))) key
      = map_of (entries (Set_carrier c (p @ k) v)) key"
    using "2.IH" "2.prems" by simp
  moreover have "key \<noteq> p @ k" using "2.prems" [of k] by simp
  ultimately show ?case by (simp add: entries_Set_carrier update_conv)
qed

lemma setAll_hit:
  "distinct (map fst kvs) \<Longrightarrow> (k, v) \<in> set kvs \<Longrightarrow>
   map_of (entries (setAll p kvs c)) (p @ k) = Some v"
proof (induction p kvs c rule: setAll.induct)
  case (1 p c)
  then show ?case by simp
next
  case (2 p k1 v1 kvs c)
  show ?case
  proof (cases "(k, v) \<in> set kvs")
    case True
    then show ?thesis using "2.IH" "2.prems" by simp
  next
    case False
    then have kv: "k = k1" "v = v1" using "2.prems" by auto
    have "\<And>k'. k' \<in> fst ` set kvs \<Longrightarrow> p @ k1 \<noteq> p @ k'"
      using "2.prems"(1) by auto
    then have "map_of (entries (setAll p kvs (Set_carrier c (p @ k1) v1))) (p @ k1)
        = map_of (entries (Set_carrier c (p @ k1) v1)) (p @ k1)"
      by (rule setAll_other)
    then show ?thesis using kv by (simp add: entries_Set_carrier update_conv)
  qed
qed

lemma InjectMetaInto_carrier:
  assumes "\<not> (traceID sm = 0 \<and> spanID sm = 0)" and "carrierFormat c0 \<noteq> None"
  obtains sets extra where "snd (InjectMetaInto t (Some sm) c0) =
      setAll prefixShadow sets (extra (setAll prefixBaggage (Baggage sm)
        (Set_carrier (Set_carrier c0 fieldNameTraceID (FormatUint (traceID sm)))
           fieldNameSpanID (FormatUint (spanID sm)))))"
    and "extra = (\<lambda>c. c) \<or> (\<exists>v. extra = (\<lambda>c. Set_carrier c fieldNameShadowType v))"
proof -
  let ?c3 = "setAll prefixBaggage (Baggage sm)
        (Set_carrier (Set_carrier c0 fieldNameTraceID (FormatUint (traceID sm)))
           fieldNameSpanID (FormatUint (spanID sm)))"
  from assms(2) obtain format where fmt: "carrierFormat c0 = Some format" by auto
  show ?thesis
  proof (cases "\<exists>st. getShadowTracer t = Some st \<and> shadowTracerType sm = fst (Type (Some st))")
    case False
    then have "snd (InjectMetaInto t (Some sm) c0) = setAll prefixShadow [] ((\<lambda>c. c) ?c3)"
      using assms(1) fmt
      by (auto simp: InjectMetaInto_def isNilOrNoop_def Let_def split: option.splits)
    then show ?thesis by (rule that) simp
  next
    case True
    then obtain st where st: "getShadowTracer t = Some st"
      "shadowTracerType sm = fst (Type (Some st))" by auto
    then have "snd (InjectMetaInto t (Some sm) c0) =
        setAll prefixShadow (fst (Inject st (shadowCtx sm) format))
          ((\<lambda>c. Set_carrier c fieldNameShadowType (shadowTracerType sm)) ?c3)"
      using assms(1) fmt
      by (auto simp: InjectMetaInto_def isNilOrNoop_def Let_def split: option.splits prod.splits)
    then show ?thesis by (rule that) blast
  qed
qed

lemma inject_entries:
  fixes bag sets :: "(string \<times> string) list"
  defines "c' \<equiv> \<lambda>extra c0 tv sv. setAll prefixShadow sets (extra (setAll prefixBaggage bag
      (Set_carrier (Set_carrier c0 fieldNameTraceID tv) fieldNameSpanID sv)))"
  assumes c0: "entries c0 = []" and bag: "distinct (map fst bag)"
    and extra: "extra = (\<lambda>c. c) \<or> (\<exists>v. extra = (\<lambda>c. Set_carrier c fieldNameShadowType v))"
  shows "distinct (map fst (entries (c' extra c0 tv sv)))"
    and "fst ` set (entries (c' extra c0 tv sv)) \<subseteq>
      {fieldNameTraceID, fieldNameSpanID, fieldNameShadowType}
        \<union> (\<lambda>k. prefixBaggage @ k) ` fst ` set bag \<union> (\<lambda>k. prefixShadow @ k) ` fst ` set sets"
    and "map_of (entries (c' extra c0 tv sv)) fieldNameTraceID = Some tv"
    and "map_of (entries (c' extra c0 tv sv)) fieldNameSpanID = Some sv"
    and "\<And>k v. (k, v) \<in> set bag \<Longrightarrow> map_of (entries (c' extra c0 tv sv)) (prefixBaggage @ k) = Some v"
proof -
  let ?c2 = "Set_carrier (Set_carrier c0 fieldNameTraceID tv) fieldNameSpanID sv"
  let ?c3 = "setAll prefixBaggage bag ?c2"
  have e: "(\<forall>c. entries (extra c) = entries c)
      \<or> (\<exists>v. \<forall>c. entries (extra c) = AList.update fieldNameShadowType v (entries c))"
    using extra by (auto simp: entries_Set_carrier)
  have d3: "distinct (map fst (entries ?c3))"
    by (rule distinct_setAll) (simp add: entries_Set_carrier c0 distinct_update)
  have d4: "distinct (map fst (entries (extra ?c3)))"
    using e d3 by (auto simp: distinct_update)
  show "distinct (map fst (entries (c' extra c0 tv sv)))"
    unfolding c'_def by (rule distinct_setAll) (rule d4)
  have dom3: "fst ` set (entries ?c3) =
      {fieldNameTraceID, fieldNameSpanID} \<union> (\<lambda>k. prefixBaggage @ k) ` fst ` set bag"
    by (auto simp: keys_setAll entries_Set_carrier dom_update c0)
  have "fst ` set (entries (extra ?c3)) = fst ` set (entries ?c3)
      \<or> fst ` set (entries (extra ?c3)) = {fieldNameShadowType} \<union> fst ` set (entries ?c3)"
  proof -
    from e show ?thesis
    proof (elim disjE exE)
      assume "\<forall>c. entries (extra c) = entries c"
      then show ?thesis by simp
    next
      fix v assume "\<forall>c. entries (extra c) = AList.update fieldNameShadowType v (entries c)"
      then have "fst ` set (entries (extra ?c3)) = {fieldNameShadowType} \<union> fst ` set (entries ?c3)"
        by (simp add: dom_update)
      then show ?thesis ..
    qed
  qed
  then have dom4: "fst ` set (entries (extra ?c3)) \<subseteq>
      {fieldNameTraceID, fieldNameSpanID, fieldNameShadowType}
        \<union> (\<lambda>k. prefixBaggage @ k) ` fst ` set bag"
    unfolding dom3 by blast
  show "fst ` set (entries (c' extra c0 tv sv)) \<subseteq>
      {fieldNameTraceID, fieldNameSpanID, fieldNameShadowType}
        \<union> (\<lambda>k. prefixBaggage @ k) ` fst ` set bag \<union> (\<lambda>k. prefixShadow @ k) ` fst ` set sets"
    unfolding c'_def keys_setAll using dom4 by blast
  have other: "map_of (entries (c' extra c0 tv sv)) key = map_of (entries ?c3) key"
    if "key \<noteq> fieldNameShadowType" "\<And>k. key \<noteq> prefixShadow @ k" for key
  proof -
    have "map_of (entries (c' extra c0 tv sv)) key = map_of (entries (extra ?c3)) key"
      unfolding c'_def using that(2) by (intro setAll_other) auto
    also have "\<dots> = map_of (entries ?c3) key"
      using e that(1) by (auto simp: update_conv)
    finally show ?thesis .
  qed
  have "map_of (entries (c' extra c0 tv sv)) fieldNameTraceID = map_of (entries ?c2) fieldNameTraceID"
    using other [of fieldNameTraceID] prefixes_apart
      setAll_other [of bag fieldNameTraceID prefixBaggage ?c2]
    by (metis (no_types, lifting))
  then show "map_of (entries (c' extra c0 tv sv)) fieldNameTraceID = Some tv"
    using prefixes_apart(8) by (simp add: entries_Set_carrier update_conv)
  have "map_of (entries (c' extra c0 tv sv)) fieldNameSpanID = map_of (entries ?c2) fieldNameSpanID"
    using other [of fieldNameSpanID] prefixes_apart
      setAll_other [of bag fieldNameSpanID prefixBaggage ?c2]
    by (metis (no_types, lifting))
  then show "map_of (entries (c' extra c0 tv sv)) fieldNameSpanID = Some sv"
    by (simp add: entries_Set_carrier update_conv)
  show "map_of (entries (c' extra c0 tv sv)) (prefixBaggage @ k) = Some v"
    if "(k, v) \<in> set bag" for k v
    using other [of "prefixBaggage @ k"] prefixes_apart(3,4) [of k] setAll_hit [OF bag that]
    by simp
qed

lemma ExtractMetaFrom_cases:
  assumes "carrierFormat carrier = Some format"
    and "ForEach_entries (extractField U) (entries carrier) extractVars0 = Inr x"
    and "\<not> (x_traceID x = 0 \<and> x_spanID x = 0)"
  shows "(snd (ExtractMetaFrom U t carrier) = None
        \<or> (\<exists>st f m e. t_shadowTracer t = Some st \<and> Extract st f m = Inl e
              \<and> ExtractMetaFrom U t carrier = (noopSpanMeta, Some e)))
      \<and> (snd (ExtractMetaFrom U t carrier) = None \<longrightarrow>
           traceID (fst (ExtractMetaFrom U t carrier)) = x_traceID x
         \<and> spanID (fst (ExtractMetaFrom U t carrier)) = x_spanID x
         \<and> Baggage (fst (ExtractMetaFrom U t carrier)) = x_baggage x)"
proof (cases "x_shadowType x \<noteq> [] \<and> x_shadowType x = fst (Type (getShadowTracer t))")
  case False
  then show ?thesis using assms
    by (auto simp: ExtractMetaFrom_def ForEach_def Let_def)
next
  case True
  then obtain st where st: "t_shadowTracer t = Some st"
    by (cases "t_shadowTracer t") (auto simp: Type_def getShadowTracer_def)
  show ?thesis
  proof (cases "Extract st format (x_shadowCarrier x)")
    case (Inl e)
    then have "ExtractMetaFrom U t carrier = (noopSpanMeta, Some e)"
      using assms True st by (auto simp: ExtractMetaFrom_def ForEach_def Let_def getShadowTracer_def)
    then show ?thesis using st Inl by auto
  next
    case (Inr ctx)
    then show ?thesis
      using assms True st by (auto simp: ExtractMetaFrom_def ForEach_def Let_def getShadowTracer_def)
  qed
qed

lemma roundtrip_fold:
  assumes nz: "\<not> (traceID sm = 0 \<and> spanID sm = 0)"
    and bag: "distinct (map fst (Baggage sm))"
    and c0: "carrier = MapCarrier [] \<or> carrier = metadataCarrier []"
    and c': "carrier' = snd (InjectMetaInto t (Some sm) carrier)"
    and perm: "set (entries carrier'') = set (entries carrier')"
  obtains x where "ForEach_entries (extractField U) (entries carrier'') extractVars0 = Inr x"
    and "x_traceID x = traceID sm" and "x_spanID x = spanID sm"
    and "\<forall>key v. map_of (x_baggage x) key = Some v \<longrightarrow>
          (\<exists>kb. (kb, v) \<in> set (Baggage sm) \<and> ToLower U kb = key)"
    and "(\<forall>k \<in> fst ` set (Baggage sm). ToLower U k = k) \<longrightarrow>
          map_of (x_baggage x) = map_of (Baggage sm)"
    and "carrierFormat carrier' = carrierFormat carrier"
proof -
  let ?tv = "FormatUint (traceID sm)" and ?sv = "FormatUint (spanID sm)"
  let ?kvs = "entries carrier''"
  have e0: "entries carrier = []" and f0: "carrierFormat carrier \<noteq> None"
    using c0 by auto
  obtain sets extra where "snd (InjectMetaInto t (Some sm) carrier) =
      setAll prefixShadow sets (extra (setAll prefixBaggage (Baggage sm)
        (Set_carrier (Set_carrier carrier fieldNameTraceID ?tv) fieldNameSpanID ?sv)))"
    and extra: "extra = (\<lambda>c. c) \<or> (\<exists>v. extra = (\<lambda>c. Set_carrier c fieldNameShadowType v))"
    by (rule InjectMetaInto_carrier [OF nz f0])
  then have carrier': "carrier' =
      setAll prefixShadow sets (extra (setAll prefixBaggage (Baggage sm)
        (Set_carrier (Set_carrier carrier fieldNameTraceID ?tv) fieldNameSpanID ?sv)))"
    using c' by simp
  note E = inject_entries [OF e0 bag extra, where sets = sets and tv = ?tv and sv = ?sv, folded carrier']
  have f': "carrierFormat carrier' = carrierFormat carrier"
    using extra unfolding carrier'
    by (auto simp: carrierFormat_setAll carrierFormat_Set_carrier)
  have mem: "map_of (entries carrier') k = Some v" if "(k, v) \<in> set ?kvs" for k v
    using that perm E(1) by simp
  have forms: "k \<in> {fieldNameTraceID, fieldNameSpanID, fieldNameShadowType}
        \<union> (\<lambda>k. prefixBaggage @ k) ` fst ` set (Baggage sm) \<union> (\<lambda>k. prefixShadow @ k) ` fst ` set sets"
    if "(k, v) \<in> set ?kvs" for k v
  proof -
    have "k \<in> fst ` set (entries carrier')" using that perm by force
    then show ?thesis using E(2) by blast
  qed
  have hitT: "v = ?tv" if "(k, v) \<in> set ?kvs" "ToLower U k = fieldNameTraceID" for k v
  proof -
    have "k = fieldNameTraceID"
      using forms [OF that(1)] that(2) prefixes_apart
      by (auto simp: lower_consts lower_prefixBaggage lower_prefixShadow)
    then show ?thesis using mem [OF that(1)] E(3) by simp
  qed
  have hitS: "v = ?sv" if "(k, v) \<in> set ?kvs" "ToLower U k = fieldNameSpanID" for k v
  proof -
    have "k = fieldNameSpanID"
      using forms [OF that(1)] that(2) prefixes_apart
      by (auto simp: lower_consts lower_prefixBaggage lower_prefixShadow)
    then show ?thesis using mem [OF that(1)] E(4) by simp
  qed
  have hitB: "\<exists>kb. (kb, v) \<in> set (Baggage sm) \<and> ToLower U kb = key"
    if "(k, v) \<in> set ?kvs" "ToLower U k = prefixBaggage @ key" for k v key
  proof -
    from forms [OF that(1)] that(2) prefixes_apart prefixes_apart_sym
    obtain kb where kb: "k = prefixBaggage @ kb" "kb \<in> fst ` set (Baggage sm)"
      by (auto simp: lower_consts lower_prefixBaggage lower_prefixShadow)
    then have "ToLower U kb = key" using that(2) by (simp add: lower_prefixBaggage)
    moreover from kb(2) obtain v' where v': "(kb, v') \<in> set (Baggage sm)" by auto
    then have "map_of (entries carrier') (prefixBaggage @ kb) = Some v'" by (rule E(5))
    then have "v' = v" using mem [OF that(1)] kb(1) by simp
    ultimately show ?thesis using v' by blast
  qed
  have inT: "(fieldNameTraceID, ?tv) \<in> set ?kvs"
    using E(3) perm by (auto dest: map_of_SomeD)
  have inS: "(fieldNameSpanID, ?sv) \<in> set ?kvs"
    using E(4) perm by (auto dest: map_of_SomeD)
  have "\<exists>x. ForEach_entries (extractField U) ?kvs extractVars0 = Inr x"
    by (rule ForEach_entries_ok) (auto dest: hitT hitS simp: ParseUint_FormatUint)
  then obtain x where x: "ForEach_entries (extractField U) ?kvs extractVars0 = Inr x" ..
  have "ParseUint ?tv = Some (x_traceID x)"
  proof (rule ForEach_entries_invariant [OF x, where hit = "\<lambda>k. ToLower U k = fieldNameTraceID"])
    show "ParseUint ?tv = Some (x_traceID y')"
      if "(k, v) \<in> set ?kvs" "extractField U k v y = Inr y'" "ToLower U k = fieldNameTraceID"
      for k v y y'
      using extractField_traceID [OF that(2)] hitT [OF that(1,3)] that(3) by simp
    show "ParseUint ?tv = Some (x_traceID y')"
      if "extractField U k v y = Inr y'" "ToLower U k \<noteq> fieldNameTraceID"
        "ParseUint ?tv = Some (x_traceID y)"
      for k v y y'
      using extractField_traceID [OF that(1)] that(2,3) by simp
    show "(\<exists>k v. (k, v) \<in> set ?kvs \<and> ToLower U k = fieldNameTraceID)
        \<or> ParseUint ?tv = Some (x_traceID extractVars0)"
      using inT lower_consts(1) by blast
  qed
  then have tid: "x_traceID x = traceID sm" by (simp add: ParseUint_FormatUint)
  have "ParseUint ?sv = Some (x_spanID x)"
  proof (rule ForEach_entries_invariant [OF x, where hit = "\<lambda>k. ToLower U k = fieldNameSpanID"])
    show "ParseUint ?sv = Some (x_spanID y')"
      if "(k, v) \<in> set ?kvs" "extractField U k v y = Inr y'" "ToLower U k = fieldNameSpanID"
      for k v y y'
      using extractField_spanID [OF that(2)] hitS [OF that(1,3)] that(3) by simp
    show "ParseUint ?sv = Some (x_spanID y')"
      if "extractField U k v y = Inr y'" "ToLower U k \<noteq> fieldNameSpanID"
        "ParseUint ?sv = Some (x_spanID y)"
      for k v y y'
      using extractField_spanID [OF that(1)] that(2,3) by simp
    show "(\<exists>k v. (k, v) \<in> set ?kvs \<and> ToLower U k = fieldNameSpanID)
        \<or> ParseUint ?sv = Some (x_spanID extractVars0)"
      using inS lower_consts(2) by blast
  qed
  then have sid: "x_spanID x = spanID sm" by (simp add: ParseUint_FormatUint)
  have from_bag: "\<exists>kb. (kb, v) \<in> set (Baggage sm) \<and> ToLower U kb = key"
    if "map_of (x_baggage x) key = Some v" for key v
  proof -
    have "\<forall>v. map_of (x_baggage x) key = Some v \<longrightarrow>
        (\<exists>kb. (kb, v) \<in> set (Baggage sm) \<and> ToLower U kb = key)"
    proof (rule ForEach_entries_invariant [OF x, where hit = "\<lambda>k. False"])
      show "\<forall>v. map_of (x_baggage y') key = Some v \<longrightarrow>
          (\<exists>kb. (kb, v) \<in> set (Baggage sm) \<and> ToLower U kb = key)"
        if "(k, v) \<in> set ?kvs" "extractField U k v y = Inr y'"
          "\<forall>v. map_of (x_baggage y) key = Some v \<longrightarrow>
            (\<exists>kb. (kb, v) \<in> set (Baggage sm) \<and> ToLower U kb = key)"
        for k v y y'
        using extractField_baggage [OF that(2), of key] hitB [OF that(1), of key] that(3)
        by (auto split: if_splits)
      show "(\<exists>k v. (k, v) \<in> set ?kvs \<and> False) \<or> (\<forall>v. map_of (x_baggage extractVars0) key = Some v \<longrightarrow>
          (\<exists>kb. (kb, v) \<in> set (Baggage sm) \<and> ToLower U kb = key))"
        by (simp add: extractVars0_def)
    qed simp
    then show ?thesis using that by blast
  qed
  have bg: "map_of (x_baggage x) = map_of (Baggage sm)"
    if low: "\<forall>k \<in> fst ` set (Baggage sm). ToLower U k = k"
  proof
    fix key
    show "map_of (x_baggage x) key = map_of (Baggage sm) key"
    proof (cases "map_of (Baggage sm) key")
      case None
      have "map_of (x_baggage x) key = None"
      proof (cases "map_of (x_baggage x) key")
        case (Some v)
        from from_bag [OF Some] obtain kb where "(kb, v) \<in> set (Baggage sm)" "ToLower U kb = key"
          by blast
        then have "(key, v) \<in> set (Baggage sm)" using low by force
        then show ?thesis using None bag by simp
      qed simp
      then show ?thesis using None by simp
    next
      case (Some v0)
      then have in0: "(key, v0) \<in> set (Baggage sm)" by (rule map_of_SomeD)
      then have "map_of (entries carrier') (prefixBaggage @ key) = Some v0" by (rule E(5))
      then have inB: "(prefixBaggage @ key, v0) \<in> set ?kvs"
        using perm by (auto dest: map_of_SomeD)
      have lk: "ToLower U (prefixBaggage @ key) = prefixBaggage @ key"
        using low in0 by (force simp: lower_prefixBaggage)
      have hit0: "v = v0" if "(k, v) \<in> set ?kvs" "ToLower U k = prefixBaggage @ key" for k v
      proof -
        from hitB [OF that] obtain kb where "(kb, v) \<in> set (Baggage sm)" "ToLower U kb = key"
          by blast
        then have "(key, v) \<in> set (Baggage sm)" using low by force
        then show ?thesis using Some bag by simp
      qed
      have "map_of (x_baggage x) key = Some v0"
      proof (rule ForEach_entries_invariant [OF x, where hit = "\<lambda>k. ToLower U k = prefixBaggage @ key"])
        show "map_of (x_baggage y') key = Some v0"
          if "(k, v) \<in> set ?kvs" "extractField U k v y = Inr y'" "ToLower U k = prefixBaggage @ key"
          for k v y y'
          using extractField_baggage [OF that(2), of key] hit0 [OF that(1,3)] that(3) by simp
        show "map_of (x_baggage y') key = Some v0"
          if "extractField U k v y = Inr y'" "ToLower U k \<noteq> prefixBaggage @ key"
            "map_of (x_baggage y) key = Some v0"
          for k v y y'
          using extractField_baggage [OF that(1), of key] that(2,3) by simp
        show "(\<exists>k v. (k, v) \<in> set ?kvs \<and> ToLower U k = prefixBaggage @ key)
            \<or> map_of (x_baggage extractVars0) key = Some v0"
          using inB lk by blast
      qed
      then show ?thesis using Some by simp
    qed
  qed
  show ?thesis
    using that [OF x tid sid _ _ f'] from_bag bg by blast
qed

lemma roundtrip_recording:
  assumes nz: "\<not> (traceID sm = 0 \<and> spanID sm = 0)"
    and bag: "distinct (map fst (Baggage sm))"
    and nosb: "\<forall>(k, v) \<in> set (Baggage sm). ToLower U k = verboseTracingBaggageKey \<longrightarrow> v = []"
    and c0: "carrier = MapCarrier [] \<or> carrier = metadataCarrier []"
    and c': "carrier' = snd (InjectMetaInto t (Some sm) carrier)"
    and fmt: "carrierFormat carrier'' = carrierFormat carrier'"
    and perm: "set (entries carrier'') = set (entries carrier')"
  shows "recordingType (fst (ExtractMetaFrom U t carrier'')) = RecordingOff"
proof -
  obtain x where x: "ForEach_entries (extractField U) (entries carrier'') extractVars0 = Inr x"
    and ids: "x_traceID x = traceID sm" "x_spanID x = spanID sm"
    and from_bag: "\<forall>key v. map_of (x_baggage x) key = Some v \<longrightarrow>
          (\<exists>kb. (kb, v) \<in> set (Baggage sm) \<and> ToLower U kb = key)"
    and f: "carrierFormat carrier' = carrierFormat carrier"
    by (rule roundtrip_fold [OF nz bag c0 c' perm, of U])
  from f fmt c0 obtain format where format: "carrierFormat carrier'' = Some format" by auto
  have nz': "\<not> (x_traceID x = 0 \<and> x_spanID x = 0)" using nz ids by simp
  have "Baggage (fst (ExtractMetaFrom U t carrier'')) = x_baggage x
      \<or> Baggage (fst (ExtractMetaFrom U t carrier'')) = []"
    using ExtractMetaFrom_cases [OF format x nz', of t] by (auto simp: noopSpanMeta_def)
  moreover have "\<not> (\<exists>v. map_of (x_baggage x) verboseTracingBaggageKey = Some v \<and> v \<noteq> [])"
    using from_bag nosb by fastforce
  ultimately have "recordingType (fst (ExtractMetaFrom U t carrier'')) \<noteq> RecordingVerbose"
    using ExtractMetaFrom_recordingType [of U t carrier''] by auto
  then show ?thesis by (cases "recordingType (fst (ExtractMetaFrom U t carrier''))") simp_all
qed

section \<open>Evaluation on concrete carriers\<close>

lemmas wire_eval = InjectMetaInto_def ExtractMetaFrom_def ForEach_def extractField_def
  isNilOrNoop_def getShadowTracer_def Type_def noopSpanMeta_def extractVars0_def
  baggageRecordingType_def verboseTracingBaggageKey_def
  fieldNameTraceID_def fieldNameSpanID_def fieldNameShadowType_def prefixTracerState_def
  prefixBaggage_def prefixShadow_def
  ToLower_def isASCII_def isUpper_def lowerByte_def char_of_def
  HasPrefix_def TrimPrefix_def ParseUint_def hexVal_def FormatUint_def formatHex.simps
  hexDigit_def digits_def Let_def bit_Suc_0_iff

section \<open>Malformed trace and span ids\<close>

text \<open>
  C7. If a carrier of a supported kind (\<open>MapCarrier\<close> or \<open>metadataCarrier\<close>) holds an entry
  whose key is, after \<open>strings.ToLower\<close>, the trace id field or the span id field, and whose
  value \<open>strconv.ParseUint(v, 16, 64)\<close> rejects, then \<open>ExtractMetaFrom\<close> returns
  \<open>opentracing.ErrSpanContextCorrupted\<close> together with the empty \<open>noopSpanMeta\<close>, in whatever
  order the entries are visited and whatever else the carrier holds. The values rejected
  are those of \<open>ParseUint_None_iff\<close>: the empty string, a string with a byte that is no
  hex digit, a number of more than 64 bits.
\<close>

theorem ExtractMetaFrom_malformed_id:
  assumes "carrierFormat carrier \<noteq> None"
    and "(k, v) \<in> set (entries carrier)"
    and "ToLower U k = fieldNameTraceID \<or> ToLower U k = fieldNameSpanID"
    and "ParseUint v = None"
  shows "ExtractMetaFrom U t carrier = (noopSpanMeta, Some ErrSpanContextCorrupted)"
  using assms ForEach_entries_corrupted [of k v "entries carrier" U extractVars0]
  by (auto simp: ExtractMetaFrom_def ForEach_def)

theorem ExtractMetaFrom_malformed_id_witness:
  "carrierFormat (MapCarrier [(''crdb-tracer-spanid'', ''1f''), (''Crdb-Tracer-TraceID'', ''12g4'')]) \<noteq> None
   \<and> ToLower id ''Crdb-Tracer-TraceID'' = fieldNameTraceID
   \<and> ParseUint ''12g4'' = None
   \<and> ExtractMetaFrom id \<lparr>noopSpan = 0, t_mode = modeLegacy, t_useNetTrace = False, t_shadowTracer = None, activeSpans = {}\<rparr>
        (MapCarrier [(''crdb-tracer-spanid'', ''1f''), (''Crdb-Tracer-TraceID'', ''12g4'')])
       = (noopSpanMeta, Some ErrSpanContextCorrupted)"
proof -
  have h1: "carrierFormat (MapCarrier [(''crdb-tracer-spanid'', ''1f''), (''Crdb-Tracer-TraceID'', ''12g4'')]) \<noteq> None"
    by simp
  have h2: "(''Crdb-Tracer-TraceID'', ''12g4'')
      \<in> set (entries (MapCarrier [(''crdb-tracer-spanid'', ''1f''), (''Crdb-Tracer-TraceID'', ''12g4'')]))"
    by simp
  have h3: "ToLower id ''Crdb-Tracer-TraceID'' = fieldNameTraceID"
    by (simp add: wire_eval)
  have h4: "ParseUint ''12g4'' = None"
    by (simp add: wire_eval)
  have h3': "ToLower id ''Crdb-Tracer-TraceID'' = fieldNameTraceID
      \<or> ToLower id ''Crdb-Tracer-TraceID'' = fieldNameSpanID"
    using h3 by simp
  from ExtractMetaFrom_malformed_id [OF h1 h2 h3' h4, of "\<lparr>noopSpan = 0, t_mode = modeLegacy, t_useNetTrace = False, t_shadowTracer = None, activeSpans = {}\<rparr>"] h1 h3 h4
  show ?thesis by simp
qed

section \<open>Keys are matched without regard to letter case\<close>

lemma isASCII_lowerByte: "isASCII c \<Longrightarrow> isASCII (lowerByte c)"
  by (simp add: isASCII_def lowerByte_def isUpper_def)

lemma lowerByte_isASCII: "lowerByte a = lowerByte b \<Longrightarrow> isASCII a \<Longrightarrow> isASCII b"
  using isASCII_lowerByte [of a]
  by (cases "isUpper b") (auto simp: lowerByte_def isASCII_def isUpper_def split: if_splits)

lemma ToLower_case_variant:
  "list_all2 (\<lambda>a b. lowerByte a = lowerByte b) k k' \<Longrightarrow> list_all isASCII k \<Longrightarrow>
   ToLower U k = ToLower U k'"
proof -
  assume r: "list_all2 (\<lambda>a b. lowerByte a = lowerByte b) k k'" and a: "list_all isASCII k"
  from r a have "list_all isASCII k' \<and> map lowerByte k = map lowerByte k'"
    by (induction rule: list_all2_induct) (auto dest: lowerByte_isASCII)
  then show ?thesis using a by (simp add: ToLower_ascii)
qed

text \<open>
  C9. Two carriers of the same kind whose entries, in the order they are visited, have the
  same values and keys that \<open>strings.ToLower\<close> maps to the same string (keys that differ
  in letter case only) give the same result of \<open>ExtractMetaFrom\<close>: the same SpanMeta (trace
  id, span id, baggage, shadow fields, recording type) and the same error.
\<close>

theorem ExtractMetaFrom_case_insensitive:
  assumes "carrierFormat carrier = carrierFormat carrier'"
    and "list_all2 (\<lambda>a b. ToLower U (fst a) = ToLower U (fst b) \<and> snd a = snd b)
           (entries carrier) (entries carrier')"
  shows "ExtractMetaFrom U t carrier = ExtractMetaFrom U t carrier'"
proof -
  have "ForEach carrier (extractField U) extractVars0 = ForEach carrier' (extractField U) extractVars0"
    using ForEach_entries_case [OF assms(2), of extractVars0] by (simp add: ForEach_def)
  then show ?thesis using assms(1)
    by (cases "carrierFormat carrier'") (simp_all add: ExtractMetaFrom_def)
qed

theorem ExtractMetaFrom_case_insensitive_witness:
  "ExtractMetaFrom id \<lparr>noopSpan = 0, t_mode = modeLegacy, t_useNetTrace = False, t_shadowTracer = None, activeSpans = {}\<rparr>
     (MapCarrier [(''CRDB-Tracer-TraceID'', ''a''), (''crdb-tracer-SPANID'', ''b''), (''Crdb-Baggage-Sb'', ''1'')])
   = ExtractMetaFrom id \<lparr>noopSpan = 0, t_mode = modeLegacy, t_useNetTrace = False, t_shadowTracer = None, activeSpans = {}\<rparr>
     (MapCarrier [(''crdb-tracer-traceid'', ''a''), (''crdb-tracer-spanid'', ''b''), (''crdb-baggage-sb'', ''1'')])
   \<and> ExtractMetaFrom id \<lparr>noopSpan = 0, t_mode = modeLegacy, t_useNetTrace = False, t_shadowTracer = None, activeSpans = {}\<rparr>
     (MapCarrier [(''crdb-tracer-traceid'', ''a''), (''crdb-tracer-spanid'', ''b''), (''crdb-baggage-sb'', ''1'')])
   = (\<lparr>traceID = 10, spanID = 11, shadowTracerType = [], shadowCtx = None, recordingType = RecordingVerbose, Baggage = [(''sb'', ''1'')]\<rparr>, None)"
proof -
  have h: "list_all2 (\<lambda>a b. ToLower id (fst a) = ToLower id (fst b) \<and> snd a = snd b)
      (entries (MapCarrier [(''CRDB-Tracer-TraceID'', ''a''), (''crdb-tracer-SPANID'', ''b''), (''Crdb-Baggage-Sb'', ''1'')]))
      (entries (MapCarrier [(''crdb-tracer-traceid'', ''a''), (''crdb-tracer-spanid'', ''b''), (''crdb-baggage-sb'', ''1'')]))"
    by (simp add: wire_eval)
  have v: "ExtractMetaFrom id \<lparr>noopSpan = 0, t_mode = modeLegacy, t_useNetTrace = False, t_shadowTracer = None, activeSpans = {}\<rparr>
     (MapCarrier [(''crdb-tracer-traceid'', ''a''), (''crdb-tracer-spanid'', ''b''), (''crdb-baggage-sb'', ''1'')])
   = (\<lparr>traceID = 10, spanID = 11, shadowTracerType = [], shadowCtx = None, recordingType = RecordingVerbose, Baggage = [(''sb'', ''1'')]\<rparr>, None)"
    by (simp add: wire_eval)
  from ExtractMetaFrom_case_insensitive [OF _ h, of "\<lparr>noopSpan = 0, t_mode = modeLegacy, t_useNetTrace = False, t_shadowTracer = None, activeSpans = {}\<rparr>"] v
  show ?thesis by simp
qed

section \<open>The round trip through a carrier\<close>

text \<open>
  C1 fails as it is stated: \<open>ExtractMetaFrom\<close> lowers every key before it looks at it, so
  a baggage key with an upper case letter comes back in lower case. Here the baggage
  \<open>K \<mapsto> v\<close> comes back as \<open>k \<mapsto> v\<close>.
\<close>

theorem roundtrip_upper_case_key_counterexample:
  "traceID \<lparr>traceID = 1, spanID = 2, shadowTracerType = [], shadowCtx = None, recordingType = RecordingOff, Baggage = [(''K'', ''v'')]\<rparr> \<noteq> 0 \<and> spanID \<lparr>traceID = 1, spanID = 2, shadowTracerType = [], shadowCtx = None, recordingType = RecordingOff, Baggage = [(''K'', ''v'')]\<rparr> \<noteq> 0
   \<and> InjectMetaInto \<lparr>noopSpan = 0, t_mode = modeLegacy, t_useNetTrace = False, t_shadowTracer = None, activeSpans = {}\<rparr> (Some \<lparr>traceID = 1, spanID = 2, shadowTracerType = [], shadowCtx = None, recordingType = RecordingOff, Baggage = [(''K'', ''v'')]\<rparr>) (MapCarrier [])
      = (None, MapCarrier [(''crdb-tracer-traceid'', ''1''), (''crdb-tracer-spanid'', ''2''),
           (''crdb-baggage-K'', ''v'')])
   \<and> ExtractMetaFrom id \<lparr>noopSpan = 0, t_mode = modeLegacy, t_useNetTrace = False, t_shadowTracer = None, activeSpans = {}\<rparr> (MapCarrier [(''crdb-tracer-traceid'', ''1''), (''crdb-tracer-spanid'', ''2''),
           (''crdb-baggage-K'', ''v'')])
      = (\<lparr>traceID = 1, spanID = 2, shadowTracerType = [], shadowCtx = None, recordingType = RecordingOff, Baggage = [(''k'', ''v'')]\<rparr>, None)
   \<and> map_of (Baggage \<lparr>traceID = 1, spanID = 2, shadowTracerType = [], shadowCtx = None, recordingType = RecordingOff, Baggage = [(''k'', ''v'')]\<rparr>) ''K'' = None
   \<and> map_of (Baggage \<lparr>traceID = 1, spanID = 2, shadowTracerType = [], shadowCtx = None, recordingType = RecordingOff, Baggage = [(''K'', ''v'')]\<rparr>) ''K'' = Some ''v''"
  by (simp add: wire_eval)

text \<open>
  C1, amended. Take a SpanMeta whose trace id and span id are not both zero and whose
  baggage keys are left as they are by \<open>strings.ToLower\<close>, inject it into an empty
  \<open>MapCarrier\<close> or \<open>metadataCarrier\<close>, and extract from a carrier of that kind holding the
  entries written, visited in any order. Then the only error \<open>ExtractMetaFrom\<close> can return
  is one reported by the shadow tracer's \<open>Extract\<close>; and when it returns no error, the
  SpanMeta has the trace id, the span id and the baggage entries of the original.
\<close>

theorem InjectMetaInto_ExtractMetaFrom_roundtrip:
  assumes nz: "\<not> (traceID sm = 0 \<and> spanID sm = 0)"
    and bag: "distinct (map fst (Baggage sm))"
    and low: "\<forall>k \<in> fst ` set (Baggage sm). ToLower U k = k"
    and c0: "carrier = MapCarrier [] \<or> carrier = metadataCarrier []"
    and c': "carrier' = snd (InjectMetaInto t (Some sm) carrier)"
    and fmt: "carrierFormat carrier'' = carrierFormat carrier'"
    and perm: "set (entries carrier'') = set (entries carrier')"
  shows "(snd (ExtractMetaFrom U t carrier'') = None
        \<or> (\<exists>st f m e. t_shadowTracer t = Some st \<and> Extract st f m = Inl e
              \<and> ExtractMetaFrom U t carrier'' = (noopSpanMeta, Some e)))
      \<and> (snd (ExtractMetaFrom U t carrier'') = None \<longrightarrow>
           traceID (fst (ExtractMetaFrom U t carrier'')) = traceID sm
         \<and> spanID (fst (ExtractMetaFrom U t carrier'')) = spanID sm
         \<and> map_of (Baggage (fst (ExtractMetaFrom U t carrier''))) = map_of (Baggage sm))"
proof -
  obtain x where x: "ForEach_entries (extractField U) (entries carrier'') extractVars0 = Inr x"
    and ids: "x_traceID x = traceID sm" "x_spanID x = spanID sm"
    and bg: "(\<forall>k \<in> fst ` set (Baggage sm). ToLower U k = k) \<longrightarrow>
          map_of (x_baggage x) = map_of (Baggage sm)"
    and f: "carrierFormat carrier' = carrierFormat carrier"
    by (rule roundtrip_fold [OF nz bag c0 c' perm, of U])
  from f fmt c0 obtain format where format: "carrierFormat carrier'' = Some format" by auto
  have nz': "\<not> (x_traceID x = 0 \<and> x_spanID x = 0)" using nz ids by simp
  show ?thesis
    using ExtractMetaFrom_cases [OF format x nz', of t] ids bg low by auto
qed

theorem InjectMetaInto_ExtractMetaFrom_roundtrip_witness:
  "\<not> (traceID \<lparr>traceID = 10, spanID = 255, shadowTracerType = [], shadowCtx = None, recordingType = RecordingOff, Baggage = [(''k'', ''v''), (''sb'', ''1'')]\<rparr> = 0 \<and> spanID \<lparr>traceID = 10, spanID = 255, shadowTracerType = [], shadowCtx = None, recordingType = RecordingOff, Baggage = [(''k'', ''v''), (''sb'', ''1'')]\<rparr> = 0)
   \<and> distinct (map fst (Baggage \<lparr>traceID = 10, spanID = 255, shadowTracerType = [], shadowCtx = None, recordingType = RecordingOff, Baggage = [(''k'', ''v''), (''sb'', ''1'')]\<rparr>))
   \<and> InjectMetaInto \<lparr>noopSpan = 0, t_mode = modeLegacy, t_useNetTrace = False, t_shadowTracer = None, activeSpans = {}\<rparr> (Some \<lparr>traceID = 10, spanID = 255, shadowTracerType = [], shadowCtx = None, recordingType = RecordingOff, Baggage = [(''k'', ''v''), (''sb'', ''1'')]\<rparr>) (metadataCarrier [])
      = (None, metadataCarrier [(''crdb-tracer-traceid'', ''a''), (''crdb-tracer-spanid'', ''ff''),
           (''crdb-baggage-k'', ''v''), (''crdb-baggage-sb'', ''1'')])
   \<and> snd (ExtractMetaFrom id \<lparr>noopSpan = 0, t_mode = modeLegacy, t_useNetTrace = False, t_shadowTracer = None, activeSpans = {}\<rparr> (metadataCarrier [(''crdb-baggage-sb'', ''1''),
           (''crdb-tracer-spanid'', ''ff''), (''crdb-baggage-k'', ''v''), (''crdb-tracer-traceid'', ''a'')])) = None
   \<and> traceID (fst (ExtractMetaFrom id \<lparr>noopSpan = 0, t_mode = modeLegacy, t_useNetTrace = False, t_shadowTracer = None, activeSpans = {}\<rparr> (metadataCarrier [(''crdb-baggage-sb'', ''1''),
           (''crdb-tracer-spanid'', ''ff''), (''crdb-baggage-k'', ''v''), (''crdb-tracer-traceid'', ''a'')]))) = 10
   \<and> spanID (fst (ExtractMetaFrom id \<lparr>noopSpan = 0, t_mode = modeLegacy, t_useNetTrace = False, t_shadowTracer = None, activeSpans = {}\<rparr> (metadataCarrier [(''crdb-baggage-sb'', ''1''),
           (''crdb-tracer-spanid'', ''ff''), (''crdb-baggage-k'', ''v''), (''crdb-tracer-traceid'', ''a'')]))) = 255
   \<and> map_of (Baggage (fst (ExtractMetaFrom id \<lparr>noopSpan = 0, t_mode = modeLegacy, t_useNetTrace = False, t_shadowTracer = None, activeSpans = {}\<rparr> (metadataCarrier [(''crdb-baggage-sb'', ''1''),
           (''crdb-tracer-spanid'', ''ff''), (''crdb-baggage-k'', ''v''), (''crdb-tracer-traceid'', ''a'')]))))
      = map_of [(''k'', ''v''), (''sb'', ''1'')]"
proof -
  let ?c' = "metadataCarrier [(''crdb-tracer-traceid'', ''a''), (''crdb-tracer-spanid'', ''ff''),
           (''crdb-baggage-k'', ''v''), (''crdb-baggage-sb'', ''1'')]"
  let ?c'' = "metadataCarrier [(''crdb-baggage-sb'', ''1''),
           (''crdb-tracer-spanid'', ''ff''), (''crdb-baggage-k'', ''v''), (''crdb-tracer-traceid'', ''a'')]"
  have h1: "\<not> (traceID \<lparr>traceID = 10, spanID = 255, shadowTracerType = [], shadowCtx = None, recordingType = RecordingOff, Baggage = [(''k'', ''v''), (''sb'', ''1'')]\<rparr> = 0 \<and> spanID \<lparr>traceID = 10, spanID = 255, shadowTracerType = [], shadowCtx = None, recordingType = RecordingOff, Baggage = [(''k'', ''v''), (''sb'', ''1'')]\<rparr> = 0)" by simp
  have h2: "distinct (map fst (Baggage \<lparr>traceID = 10, spanID = 255, shadowTracerType = [], shadowCtx = None, recordingType = RecordingOff, Baggage = [(''k'', ''v''), (''sb'', ''1'')]\<rparr>))" by simp
  have h3: "\<forall>k \<in> fst ` set (Baggage \<lparr>traceID = 10, spanID = 255, shadowTracerType = [], shadowCtx = None, recordingType = RecordingOff, Baggage = [(''k'', ''v''), (''sb'', ''1'')]\<rparr>). ToLower id k = k" by (simp add: wire_eval)
  have h4: "metadataCarrier [] = MapCarrier [] \<or> metadataCarrier [] = metadataCarrier []" by simp
  have inj: "InjectMetaInto \<lparr>noopSpan = 0, t_mode = modeLegacy, t_useNetTrace = False, t_shadowTracer = None, activeSpans = {}\<rparr> (Some \<lparr>traceID = 10, spanID = 255, shadowTracerType = [], shadowCtx = None, recordingType = RecordingOff, Baggage = [(''k'', ''v''), (''sb'', ''1'')]\<rparr>) (metadataCarrier []) = (None, ?c')" by (simp add: wire_eval)
  then have h5: "?c' = snd (InjectMetaInto \<lparr>noopSpan = 0, t_mode = modeLegacy, t_useNetTrace = False, t_shadowTracer = None, activeSpans = {}\<rparr> (Some \<lparr>traceID = 10, spanID = 255, shadowTracerType = [], shadowCtx = None, recordingType = RecordingOff, Baggage = [(''k'', ''v''), (''sb'', ''1'')]\<rparr>) (metadataCarrier []))" by simp
  have h6: "carrierFormat ?c'' = carrierFormat ?c'" by simp
  have h7: "set (entries ?c'') = set (entries ?c')" by auto
  have ok: "snd (ExtractMetaFrom id \<lparr>noopSpan = 0, t_mode = modeLegacy, t_useNetTrace = False, t_shadowTracer = None, activeSpans = {}\<rparr> ?c'') = None" by (simp add: wire_eval)
  from InjectMetaInto_ExtractMetaFrom_roundtrip [OF h1 h2 h3 h4 h5 h6 h7] ok h1 h2 inj
  show ?thesis by simp
qed

section \<open>The recording flag on the wire\<close>

text \<open>
  C10 fails in its last part as it is stated: a SpanMeta whose recording flag is set and
  whose baggage has no entry under \<open>sb\<close>, but one under \<open>SB\<close>, comes back from the round
  trip with the flag set, since the key is lowered on the way.
\<close>

theorem recording_flag_kept_counterexample:
  "recordingType \<lparr>traceID = 1, spanID = 2, shadowTracerType = [], shadowCtx = None, recordingType = RecordingVerbose, Baggage = [(''SB'', ''1'')]\<rparr> = RecordingVerbose
   \<and> map_of (Baggage \<lparr>traceID = 1, spanID = 2, shadowTracerType = [], shadowCtx = None, recordingType = RecordingVerbose, Baggage = [(''SB'', ''1'')]\<rparr>) verboseTracingBaggageKey = None
   \<and> InjectMetaInto \<lparr>noopSpan = 0, t_mode = modeLegacy, t_useNetTrace = False, t_shadowTracer = None, activeSpans = {}\<rparr> (Some \<lparr>traceID = 1, spanID = 2, shadowTracerType = [], shadowCtx = None, recordingType = RecordingVerbose, Baggage = [(''SB'', ''1'')]\<rparr>) (MapCarrier [])
      = (None, MapCarrier [(''crdb-tracer-traceid'', ''1''), (''crdb-tracer-spanid'', ''2''),
           (''crdb-baggage-SB'', ''1'')])
   \<and> recordingType (fst (ExtractMetaFrom id \<lparr>noopSpan = 0, t_mode = modeLegacy, t_useNetTrace = False, t_shadowTracer = None, activeSpans = {}\<rparr> (MapCarrier [(''crdb-tracer-traceid'', ''1''),
           (''crdb-tracer-spanid'', ''2''), (''crdb-baggage-SB'', ''1'')]))) = RecordingVerbose"
  by (simp add: wire_eval)

text \<open>
  C10, amended. The recording flag travels only as the baggage entry \<open>sb\<close>:
  the SpanMeta \<open>ExtractMetaFrom\<close> returns has the verbose recording type if and only if its
  baggage, as decoded, has a non-empty entry under \<open>sb\<close>; what \<open>InjectMetaInto\<close> writes and
  returns does not depend on the recording flag of the SpanMeta, so no field carries it;
  and a SpanMeta (trace id and span id not both zero) none of whose baggage keys is mapped
  to \<open>sb\<close> by \<open>strings.ToLower\<close> with a non-empty value comes back from a round trip
  through an empty \<open>MapCarrier\<close> or \<open>metadataCarrier\<close> with recording off, whatever its
  own flag was.
\<close>

theorem recording_flag_only_in_baggage:
  "((recordingType (fst (ExtractMetaFrom U t c)) = RecordingVerbose) =
      (\<exists>v. map_of (Baggage (fst (ExtractMetaFrom U t c))) verboseTracingBaggageKey = Some v \<and> v \<noteq> []))
   \<and> InjectMetaInto t (Some (sm\<lparr>recordingType := r\<rparr>)) c = InjectMetaInto t (Some sm) c
   \<and> (\<not> (traceID sm = 0 \<and> spanID sm = 0)
      \<and> distinct (map fst (Baggage sm))
      \<and> (\<forall>(k, v) \<in> set (Baggage sm). ToLower U k = verboseTracingBaggageKey \<longrightarrow> v = [])
      \<and> (carrier = MapCarrier [] \<or> carrier = metadataCarrier [])
      \<and> carrier' = snd (InjectMetaInto t (Some sm) carrier)
      \<and> carrierFormat carrier'' = carrierFormat carrier'
      \<and> set (entries carrier'') = set (entries carrier')
      \<longrightarrow> recordingType (fst (ExtractMetaFrom U t carrier'')) = RecordingOff)"
  using ExtractMetaFrom_recordingType [of U t c] InjectMetaInto_recordingType [where t = t and sm = sm and r = r and carrier = c]
    roundtrip_recording [of sm U carrier carrier' t carrier'']
  by blast

theorem recording_flag_only_in_baggage_witness:
  "recordingType \<lparr>traceID = 1, spanID = 2, shadowTracerType = [], shadowCtx = None, recordingType = RecordingVerbose, Baggage = [(''k'', ''v'')]\<rparr> = RecordingVerbose
   \<and> InjectMetaInto \<lparr>noopSpan = 0, t_mode = modeLegacy, t_useNetTrace = False, t_shadowTracer = None, activeSpans = {}\<rparr> (Some \<lparr>traceID = 1, spanID = 2, shadowTracerType = [], shadowCtx = None, recordingType = RecordingVerbose, Baggage = [(''k'', ''v'')]\<rparr>) (MapCarrier [])
      = (None, MapCarrier [(''crdb-tracer-traceid'', ''1''), (''crdb-tracer-spanid'', ''2''),
           (''crdb-baggage-k'', ''v'')])
   \<and> recordingType (fst (ExtractMetaFrom id \<lparr>noopSpan = 0, t_mode = modeLegacy, t_useNetTrace = False, t_shadowTracer = None, activeSpans = {}\<rparr> (MapCarrier [(''crdb-tracer-spanid'', ''2''),
           (''crdb-baggage-k'', ''v''), (''crdb-tracer-traceid'', ''1'')]))) = RecordingOff"
proof -
  let ?c' = "MapCarrier [(''crdb-tracer-traceid'', ''1''), (''crdb-tracer-spanid'', ''2''),
           (''crdb-baggage-k'', ''v'')]"
  let ?c'' = "MapCarrier [(''crdb-tracer-spanid'', ''2''),
           (''crdb-baggage-k'', ''v''), (''crdb-tracer-traceid'', ''1'')]"
  have h1: "\<not> (traceID \<lparr>traceID = 1, spanID = 2, shadowTracerType = [], shadowCtx = None, recordingType = RecordingVerbose, Baggage = [(''k'', ''v'')]\<rparr> = 0 \<and> spanID \<lparr>traceID = 1, spanID = 2, shadowTracerType = [], shadowCtx = None, recordingType = RecordingVerbose, Baggage = [(''k'', ''v'')]\<rparr> = 0)" by simp
  have h2: "distinct (map fst (Baggage \<lparr>traceID = 1, spanID = 2, shadowTracerType = [], shadowCtx = None, recordingType = RecordingVerbose, Baggage = [(''k'', ''v'')]\<rparr>))" by simp
  have h3: "\<forall>(k, v) \<in> set (Baggage \<lparr>traceID = 1, spanID = 2, shadowTracerType = [], shadowCtx = None, recordingType = RecordingVerbose, Baggage = [(''k'', ''v'')]\<rparr>). ToLower id k = verboseTracingBaggageKey \<longrightarrow> v = []"
    by (simp add: wire_eval)
  have inj: "InjectMetaInto \<lparr>noopSpan = 0, t_mode = modeLegacy, t_useNetTrace = False, t_shadowTracer = None, activeSpans = {}\<rparr> (Some \<lparr>traceID = 1, spanID = 2, shadowTracerType = [], shadowCtx = None, recordingType = RecordingVerbose, Baggage = [(''k'', ''v'')]\<rparr>) (MapCarrier []) = (None, ?c')" by (simp add: wire_eval)
  then have h5: "?c' = snd (InjectMetaInto \<lparr>noopSpan = 0, t_mode = modeLegacy, t_useNetTrace = False, t_shadowTracer = None, activeSpans = {}\<rparr> (Some \<lparr>traceID = 1, spanID = 2, shadowTracerType = [], shadowCtx = None, recordingType = RecordingVerbose, Baggage = [(''k'', ''v'')]\<rparr>) (MapCarrier []))" by simp
  have h6: "carrierFormat ?c'' = carrierFormat ?c'" by simp
  have h7: "set (entries ?c'') = set (entries ?c')" by auto
  have off: "recordingType (fst (ExtractMetaFrom id \<lparr>noopSpan = 0, t_mode = modeLegacy, t_useNetTrace = False, t_shadowTracer = None, activeSpans = {}\<rparr> ?c'')) = RecordingOff"
    by (rule recording_flag_only_in_baggage [where U = id and t = "\<lparr>noopSpan = 0, t_mode = modeLegacy, t_useNetTrace = False, t_shadowTracer = None, activeSpans = {}\<rparr>" and c = "?c''" and sm = "\<lparr>traceID = 1, spanID = 2, shadowTracerType = [], shadowCtx = None, recordingType = RecordingVerbose, Baggage = [(''k'', ''v'')]\<rparr>"
      and r = RecordingOff and carrier = "MapCarrier []" and carrier' = "?c'" and carrier'' = "?c''",
          THEN conjunct2, THEN conjunct2, THEN mp])
      (intro conjI h1 h2 h3 disjI1 refl h5 h6 h7)
  from off inj show ?thesis by simp
qed

section \<open>Lemmas on the store\<close>

lemma SetTag_frame:
  "tracer (SetTag s k v w) = tracer w" "nextSpan (SetTag s k v w) = nextSpan w"
  "randCalls (SetTag s k v w) = randCalls w"
  "r \<noteq> s \<Longrightarrow> spans (SetTag s k v w) r = spans w r"
  by (simp_all add: SetTag_def split: option.splits)

lemma SetBaggageItem_frame:
  "tracer (SetBaggageItem s k v w) = tracer w" "nextSpan (SetBaggageItem s k v w) = nextSpan w"
  "randCalls (SetBaggageItem s k v w) = randCalls w"
  "r \<noteq> s \<Longrightarrow> spans (SetBaggageItem s k v w) r = spans w r"
  by (simp_all add: SetBaggageItem_def split: option.splits)

lemma SetTag_crdb:
  "crdb (spans (SetTag s k v w) s) =
     map_option (\<lambda>c. c\<lparr>c_tags := AList.update k v (c_tags c)\<rparr>) (crdb (spans w s))"
  by (simp add: SetTag_def mirrorTag_def split: option.splits)

lemma SetBaggageItem_crdb:
  "crdb (spans (SetBaggageItem s k v w) s) =
     map_option (\<lambda>c. c\<lparr>c_baggage := AList.update k v (c_baggage c)\<rparr>) (crdb (spans w s))"
  by (simp add: SetBaggageItem_def mirrorBaggage_def split: option.splits)

lemma setTags_frame:
  "tracer (setTags s kvs w) = tracer w" "nextSpan (setTags s kvs w) = nextSpan w"
  "randCalls (setTags s kvs w) = randCalls w"
  "r \<noteq> s \<Longrightarrow> spans (setTags s kvs w) r = spans w r"
  by (induction s kvs w rule: setTags.induct) (simp_all add: SetTag_frame)

lemma setBaggageItems_frame:
  "tracer (setBaggageItems s kvs w) = tracer w" "nextSpan (setBaggageItems s kvs w) = nextSpan w"
  "randCalls (setBaggageItems s kvs w) = randCalls w"
  "r \<noteq> s \<Longrightarrow> spans (setBaggageItems s kvs w) r = spans w r"
  by (induction s kvs w rule: setBaggageItems.induct) (simp_all add: SetBaggageItem_frame)

lemma setTags_crdb:
  "crdb (spans w s) = Some c \<Longrightarrow>
   \<exists>c'. crdb (spans (setTags s kvs w) s) = Some c' \<and> c_traceID c' = c_traceID c
     \<and> c_spanID c' = c_spanID c \<and> c_baggage c' = c_baggage c
     \<and> c_recordingType c' = c_recordingType c \<and> c_parentSpanID c' = c_parentSpanID c"
proof (induction s kvs w arbitrary: c rule: setTags.induct)
  case (1 s w)
  then show ?case by simp
next
  case (2 s k v kvs w)
  have "crdb (spans (SetTag s k v w) s) = Some (c\<lparr>c_tags := AList.update k v (c_tags c)\<rparr>)"
    using "2.prems" by (simp add: SetTag_crdb)
  from "2.IH" [OF this] show ?case by simp
qed

lemma setBaggageItems_crdb:
  "crdb (spans w s) = Some c \<Longrightarrow>
   \<exists>c'. crdb (spans (setBaggageItems s kvs w) s) = Some c' \<and> c_traceID c' = c_traceID c
     \<and> c_spanID c' = c_spanID c
     \<and> c_recordingType c' = c_recordingType c \<and> c_parentSpanID c' = c_parentSpanID c
     \<and> c_baggage c' = fold (\<lambda>(k, v). AList.update k v) kvs (c_baggage c)"
proof (induction s kvs w arbitrary: c rule: setBaggageItems.induct)
  case (1 s w)
  then show ?case by simp
next
  case (2 s k v kvs w)
  have "crdb (spans (SetBaggageItem s k v w) s) = Some (c\<lparr>c_baggage := AList.update k v (c_baggage c)\<rparr>)"
    using "2.prems" by (simp add: SetBaggageItem_crdb)
  from "2.IH" [OF this] show ?case by simp
qed

lemma map_of_fold_update:
  "distinct (map fst kvs) \<Longrightarrow>
   map_of (fold (\<lambda>(k, v). AList.update k v) kvs al) = map_of al ++ map_of kvs"
proof (induction kvs arbitrary: al)
  case Nil
  then show ?case by simp
next
  case (Cons kv kvs)
  obtain k v where kv: "kv = (k, v)" by (cases kv)
  have d: "distinct (map fst kvs)" and "k \<notin> dom (map_of kvs)"
    using Cons.prems kv by (auto simp: dom_map_of_conv_image_fst)
  have "map_of (fold (\<lambda>(k, v). AList.update k v) (kv # kvs) al)
      = map_of (fold (\<lambda>(k, v). AList.update k v) kvs (AList.update k v al))"
    by (simp add: kv)
  also have "\<dots> = map_of (AList.update k v al) ++ map_of kvs"
    by (rule Cons.IH [OF d])
  also have "\<dots> = (map_of al)(k \<mapsto> v) ++ map_of kvs"
    by (simp only: update_conv')
  also have "\<dots> = (map_of al ++ map_of kvs)(k \<mapsto> v)"
    by (rule map_add_upd_left) fact
  also have "\<dots> = map_of al ++ (map_of kvs)(k \<mapsto> v)"
    by (simp only: map_add_upd)
  also have "(map_of kvs)(k \<mapsto> v) = map_of (kv # kvs)"
    unfolding kv by (simp only: map_of.simps fst_conv snd_conv)
  finally show ?case .
qed

lemma inheritLogTags_fields:
  "Parent (inheritLogTags w opts) = Parent opts"
  "RemoteParent (inheritLogTags w opts) = RemoteParent opts"
  "RefType (inheritLogTags w opts) = RefType opts"
  "Tags (inheritLogTags w opts) = Tags opts"
  "ForceRealSpan (inheritLogTags w opts) = ForceRealSpan opts"
  "BypassRegistry (inheritLogTags w opts) = BypassRegistry opts"
  by (simp_all add: inheritLogTags_def)

lemma inheritLogTags_parent:
  "parentTraceID w' (inheritLogTags w opts) = parentTraceID w' opts"
  "parentSpanID w' (inheritLogTags w opts) = parentSpanID w' opts"
  "opts_recordingType w' (inheritLogTags w opts) = opts_recordingType w' opts"
  by (simp_all add: parentTraceID_def parentSpanID_def opts_recordingType_def inheritLogTags_fields
      split: option.splits)

lemma newIDs_ids:
  "fst (newIDs env w opts) =
     (if parentTraceID w opts = 0 then take_bit 63 (rnd env (randCalls w)) else parentTraceID w opts,
      take_bit 63 (rnd env (if parentTraceID w opts = 0 then Suc (randCalls w) else randCalls w)))"
  by (simp add: newIDs_def Int63_def Let_def)

lemma newIDs_frame:
  "tracer (snd (newIDs env w opts)) = tracer w"
  "spans (snd (newIDs env w opts)) = spans w"
  "nextSpan (snd (newIDs env w opts)) = nextSpan w"
  by (simp_all add: newIDs_def Int63_def Let_def)

lemma maybeWrapCtx_span: "snd (maybeWrapCtx ctx octx sp) = sp"
  by (cases ctx) simp_all

lemma maybeWrapCtx_ctx:
  "fst (maybeWrapCtx ctx octx sp) = (case ctx of noCtx \<Rightarrow> noCtx | Ctx tags old \<Rightarrow> Ctx tags (Some sp))"
  by (cases ctx) simp_all

lemma copyBaggageOrRegister_frame:
  "nextSpan (copyBaggageOrRegister s opts w) = nextSpan w"
  "r \<noteq> s \<Longrightarrow> spans (copyBaggageOrRegister s opts w) r = spans w r"
  by (simp_all add: copyBaggageOrRegister_def Let_def setBaggageItems_frame split: option.splits)

lemma copyBaggageOrRegister_registry:
  "activeSpans (tracer (copyBaggageOrRegister s opts w)) =
     (if Parent opts = None \<and> \<not> BypassRegistry opts then insert s (activeSpans (tracer w))
      else activeSpans (tracer w))"
  by (simp add: copyBaggageOrRegister_def Let_def setBaggageItems_frame split: option.splits)

text \<open>The baggage a new span is given: that of a real local parent, else that of a
  remote parent.\<close>

lemma copyBaggageOrRegister_crdb:
  assumes "crdb (spans w s) = Some c"
  shows "\<exists>c'. crdb (spans (copyBaggageOrRegister s opts w) s) = Some c'
     \<and> c_traceID c' = c_traceID c \<and> c_spanID c' = c_spanID c
     \<and> c_recordingType c' = c_recordingType c \<and> c_parentSpanID c' = c_parentSpanID c
     \<and> c_baggage c' = fold (\<lambda>(k, v). AList.update k v)
          (case Parent opts of
             Some pr \<Rightarrow> (case crdb (spans w pr) of Some pc \<Rightarrow> c_baggage pc | None \<Rightarrow> [])
           | None \<Rightarrow> (case RemoteParent opts of Some m \<Rightarrow> Baggage m | None \<Rightarrow> []))
          (c_baggage c)"
proof (cases "Parent opts")
  case (Some pr)
  show ?thesis
  proof (cases "crdb (spans w pr)")
    case None
    then show ?thesis using Some assms by (simp add: copyBaggageOrRegister_def isNoop_def)
  next
    case (Some pc)
    then show ?thesis
      using \<open>Parent opts = Some pr\<close> setBaggageItems_crdb [OF assms, of "c_baggage pc"]
      by (simp add: copyBaggageOrRegister_def isNoop_def)
  qed
next
  case None
  let ?w1 = "if \<not> BypassRegistry opts
      then w\<lparr>tracer := (tracer w)\<lparr>activeSpans := insert s (activeSpans (tracer w))\<rparr>\<rparr> else w"
  have c1: "crdb (spans ?w1 s) = Some c" using assms by simp
  show ?thesis
  proof (cases "RemoteParent opts")
    case None
    then show ?thesis using \<open>Parent opts = None\<close> c1
      by (simp add: copyBaggageOrRegister_def Let_def)
  next
    case (Some m)
    then show ?thesis
      using \<open>Parent opts = None\<close> setBaggageItems_crdb [OF c1, of "Baggage m"]
      by (simp add: copyBaggageOrRegister_def Let_def)
  qed
qed

lemma startRealSpan_result:
  assumes par: "\<And>pr. Parent opts = Some pr \<Longrightarrow> pr \<noteq> nextSpan w"
  shows "fst (startRealSpan env w ctx opName opts) = maybeWrapCtx ctx True (nextSpan w)"
    and "nextSpan (snd (startRealSpan env w ctx opName opts)) = Suc (nextSpan w)"
    and "\<And>r. r \<noteq> nextSpan w \<Longrightarrow> spans (snd (startRealSpan env w ctx opName opts)) r = spans w r"
    and "activeSpans (tracer (snd (startRealSpan env w ctx opName opts))) =
      (if Parent opts = None \<and> \<not> BypassRegistry opts
       then insert (nextSpan w) (activeSpans (tracer w)) else activeSpans (tracer w))"
    and "\<exists>c. crdb (spans (snd (startRealSpan env w ctx opName opts)) (nextSpan w)) = Some c
      \<and> c_traceID c = (if parentTraceID w opts = 0 then take_bit 63 (rnd env (randCalls w))
                        else parentTraceID w opts)
      \<and> c_spanID c = take_bit 63 (rnd env
            (if parentTraceID w opts = 0 then Suc (randCalls w) else randCalls w))
      \<and> c_recordingType c = opts_recordingType w opts
      \<and> c_parentSpanID c = parentSpanID w opts
      \<and> c_baggage c = fold (\<lambda>(k, v). AList.update k v)
          (case Parent opts of
             Some pr \<Rightarrow> (case crdb (spans w pr) of Some pc \<Rightarrow> c_baggage pc | None \<Rightarrow> [])
           | None \<Rightarrow> (case RemoteParent opts of Some m \<Rightarrow> Baggage m | None \<Rightarrow> []))
          []"
proof -
  let ?s = "nextSpan w"
  let ?o = "inheritLogTags w opts"
  let ?ids = "fst (newIDs env w ?o)"
  let ?w2 = "snd (newIDs env w ?o)"
  let ?c2 = "enableRecording (case Parent ?o of None \<Rightarrow> None | Some pr \<Rightarrow> crdb (spans w pr))
      (opts_recordingType w ?o)
      \<lparr>c_traceID = fst ?ids, c_spanID = snd ?ids, c_goroutineID = goid env,
        c_operation = opName, c_startTime = now env, c_parentSpanID = parentSpanID w ?o,
        c_logTags = LogTags ?o, c_duration = - 1, c_recordingType = RecordingOff,
        c_baggage = [], c_tags = []\<rparr>"
  let ?w3 = "?w2\<lparr>spans := (spans ?w2)(?s := \<lparr>crdb = Some ?c2,
      ot = newShadowSpan w ?o opName (now env), netTr = newNetTrace w ?o opName\<rparr>),
      nextSpan := Suc (nextSpan ?w2)\<rparr>"
  let ?w4 = "setTags ?s (Tags ?o) ?w3"
  let ?R = "startRealSpan env w ctx opName opts"
  have R: "?R = (maybeWrapCtx ctx True ?s, copyBaggageOrRegister ?s ?o ?w4)"
    by (simp add: startRealSpan_def Let_def case_prod_beta alloc_def newIDs_frame)
  show "fst ?R = maybeWrapCtx ctx True ?s" by (simp add: R)
  show "nextSpan (snd ?R) = Suc ?s"
    by (simp add: R copyBaggageOrRegister_frame setTags_frame newIDs_frame)
  show "spans (snd ?R) r = spans w r" if "r \<noteq> ?s" for r
    using that by (simp add: R copyBaggageOrRegister_frame setTags_frame newIDs_frame)
  show "activeSpans (tracer (snd ?R)) =
      (if Parent opts = None \<and> \<not> BypassRegistry opts
       then insert ?s (activeSpans (tracer w)) else activeSpans (tracer w))"
    by (simp add: R copyBaggageOrRegister_registry setTags_frame newIDs_frame inheritLogTags_fields)
  have c3: "crdb (spans ?w3 ?s) = Some ?c2" by simp
  from setTags_crdb [OF c3, of "Tags ?o"]
  obtain c4 where c4: "crdb (spans ?w4 ?s) = Some c4" "c_traceID c4 = c_traceID ?c2"
    "c_spanID c4 = c_spanID ?c2" "c_baggage c4 = c_baggage ?c2"
    "c_recordingType c4 = c_recordingType ?c2" "c_parentSpanID c4 = c_parentSpanID ?c2"
    by blast
  have parent: "spans ?w4 pr = spans w pr" if "Parent opts = Some pr" for pr
    using par [OF that] by (simp add: setTags_frame newIDs_frame)
  from copyBaggageOrRegister_crdb [OF c4(1), of ?o]
  obtain c5 where c5: "crdb (spans (copyBaggageOrRegister ?s ?o ?w4) ?s) = Some c5"
    "c_traceID c5 = c_traceID c4" "c_spanID c5 = c_spanID c4"
    "c_recordingType c5 = c_recordingType c4" "c_parentSpanID c5 = c_parentSpanID c4"
    "c_baggage c5 = fold (\<lambda>(k, v). AList.update k v)
          (case Parent ?o of
             Some pr \<Rightarrow> (case crdb (spans ?w4 pr) of Some pc \<Rightarrow> c_baggage pc | None \<Rightarrow> [])
           | None \<Rightarrow> (case RemoteParent ?o of Some m \<Rightarrow> Baggage m | None \<Rightarrow> []))
          (c_baggage c4)"
    by blast
  have src: "(case Parent ?o of
             Some pr \<Rightarrow> (case crdb (spans ?w4 pr) of Some pc \<Rightarrow> c_baggage pc | None \<Rightarrow> [])
           | None \<Rightarrow> (case RemoteParent ?o of Some m \<Rightarrow> Baggage m | None \<Rightarrow> []))
      = (case Parent opts of
             Some pr \<Rightarrow> (case crdb (spans w pr) of Some pc \<Rightarrow> c_baggage pc | None \<Rightarrow> [])
           | None \<Rightarrow> (case RemoteParent opts of Some m \<Rightarrow> Baggage m | None \<Rightarrow> []))"
    using parent by (simp add: inheritLogTags_fields split: option.splits)
  show "\<exists>c. crdb (spans (snd ?R) ?s) = Some c
      \<and> c_traceID c = (if parentTraceID w opts = 0 then take_bit 63 (rnd env (randCalls w))
                        else parentTraceID w opts)
      \<and> c_spanID c = take_bit 63 (rnd env
            (if parentTraceID w opts = 0 then Suc (randCalls w) else randCalls w))
      \<and> c_recordingType c = opts_recordingType w opts
      \<and> c_parentSpanID c = parentSpanID w opts
      \<and> c_baggage c = fold (\<lambda>(k, v). AList.update k v)
          (case Parent opts of
             Some pr \<Rightarrow> (case crdb (spans w pr) of Some pc \<Rightarrow> c_baggage pc | None \<Rightarrow> [])
           | None \<Rightarrow> (case RemoteParent opts of Some m \<Rightarrow> Baggage m | None \<Rightarrow> []))
          []"
    using c5 c4(2-) src
    by (simp add: R enableRecording_def newIDs_ids inheritLogTags_parent)
qed

lemma parent_fields:
  assumes "Parent opts' = Parent opts" and "RemoteParent opts' = RemoteParent opts"
  shows "parentTraceID w opts' = parentTraceID w opts" "parentSpanID w opts' = parentSpanID w opts"
    "opts_recordingType w opts' = opts_recordingType w opts"
  using assms
  by (simp_all add: parentTraceID_def parentSpanID_def opts_recordingType_def cong: option.case_cong)

lemma startSpanGeneric_real:
  assumes "RefType opts = ChildOfRef \<or> RefType opts = FollowsFromRef"
    and "Parent opts = None \<or> RemoteParent opts = None"
    and "AlwaysTrace (tracer w) \<or> opts_recordingType w opts \<noteq> RecordingOff
         \<or> ForceRealSpan opts \<or> t_mode (tracer w) = modeBackground"
  obtains opts' where "startSpanGeneric env w ctx opName opts = Inr (startRealSpan env w ctx opName opts')"
    and "Parent opts' = Parent opts" and "RemoteParent opts' = RemoteParent opts"
    and "BypassRegistry opts' = BypassRegistry opts"
proof -
  let ?o1 = "if t_mode (tracer w) = modeBackground then opts\<lparr>ForceRealSpan := True\<rparr> else opts"
  let ?o = "if LogTags ?o1 = None then ?o1\<lparr>LogTags := FromContext ctx\<rparr> else ?o1"
  have f: "Parent ?o = Parent opts" "RemoteParent ?o = RemoteParent opts"
    "BypassRegistry ?o = BypassRegistry opts" by simp_all
  then have "opts_recordingType w ?o = opts_recordingType w opts"
    by (intro parent_fields)
  moreover have "ForceRealSpan ?o = (ForceRealSpan opts \<or> t_mode (tracer w) = modeBackground)"
    by simp
  ultimately have "startSpanGeneric env w ctx opName opts = Inr (startRealSpan env w ctx opName ?o)"
    using assms unfolding startSpanGeneric_def Let_def by auto
  then show ?thesis using f by (rule that)
qed

lemma StartSpanCtx_opts:
  "opts = fold (\<lambda>opt opts. opt opts) os spanOptions0 \<Longrightarrow>
   StartSpanCtx env w ctx opName os = startSpanGeneric env w ctx opName opts"
  by (simp add: StartSpanCtx_def)

lemma StartSpanCtx_real:
  assumes o: "opts = fold (\<lambda>opt opts. opt opts) os spanOptions0"
    and "RefType opts = ChildOfRef \<or> RefType opts = FollowsFromRef"
    and "Parent opts = None \<or> RemoteParent opts = None"
    and "AlwaysTrace (tracer w) \<or> opts_recordingType w opts \<noteq> RecordingOff
         \<or> ForceRealSpan opts \<or> t_mode (tracer w) = modeBackground"
    and alloc: "\<forall>pr. Parent opts = Some pr \<longrightarrow> pr < nextSpan w"
  obtains w' c where
    "StartSpanCtx env w ctx opName os
       = Inr ((fst (maybeWrapCtx ctx True (nextSpan w)), nextSpan w), w')"
    and "nextSpan w' = Suc (nextSpan w)"
    and "\<forall>r. r \<noteq> nextSpan w \<longrightarrow> spans w' r = spans w r"
    and "activeSpans (tracer w') =
      (if Parent opts = None \<and> \<not> BypassRegistry opts
       then insert (nextSpan w) (activeSpans (tracer w)) else activeSpans (tracer w))"
    and "crdb (spans w' (nextSpan w)) = Some c"
    and "c_traceID c = (if parentTraceID w opts = 0 then take_bit 63 (rnd env (randCalls w))
                        else parentTraceID w opts)"
    and "c_spanID c = take_bit 63 (rnd env
            (if parentTraceID w opts = 0 then Suc (randCalls w) else randCalls w))"
    and "c_recordingType c = opts_recordingType w opts"
    and "c_baggage c = fold (\<lambda>(k, v). AList.update k v)
          (case Parent opts of
             Some pr \<Rightarrow> (case crdb (spans w pr) of Some pc \<Rightarrow> c_baggage pc | None \<Rightarrow> [])
           | None \<Rightarrow> (case RemoteParent opts of Some m \<Rightarrow> Baggage m | None \<Rightarrow> []))
          []"
proof -
  obtain opts' where r: "startSpanGeneric env w ctx opName opts = Inr (startRealSpan env w ctx opName opts')"
    and f: "Parent opts' = Parent opts" "RemoteParent opts' = RemoteParent opts"
    and b: "BypassRegistry opts' = BypassRegistry opts"
    by (rule startSpanGeneric_real [OF assms(2,3,4)])
  have par: "\<And>pr. Parent opts' = Some pr \<Longrightarrow> pr \<noteq> nextSpan w"
    using alloc f(1) by auto
  let ?R = "startRealSpan env w ctx opName opts'"
  note res = startRealSpan_result [where opts = opts' and w = w and env = env and ctx = ctx
      and opName = opName, OF par]
  from res(5) obtain c where c: "crdb (spans (snd ?R) (nextSpan w)) = Some c"
    "c_traceID c = (if parentTraceID w opts' = 0 then take_bit 63 (rnd env (randCalls w))
                        else parentTraceID w opts')"
    "c_spanID c = take_bit 63 (rnd env
            (if parentTraceID w opts' = 0 then Suc (randCalls w) else randCalls w))"
    "c_recordingType c = opts_recordingType w opts'"
    "c_baggage c = fold (\<lambda>(k, v). AList.update k v)
          (case Parent opts' of
             Some pr \<Rightarrow> (case crdb (spans w pr) of Some pc \<Rightarrow> c_baggage pc | None \<Rightarrow> [])
           | None \<Rightarrow> (case RemoteParent opts' of Some m \<Rightarrow> Baggage m | None \<Rightarrow> []))
          []"
    by blast
  have start: "StartSpanCtx env w ctx opName os
      = Inr ((fst (maybeWrapCtx ctx True (nextSpan w)), nextSpan w), snd ?R)"
    by (simp add: StartSpanCtx_opts [OF o] r prod_eq_iff res(1) maybeWrapCtx_span)
  have reg: "activeSpans (tracer (snd ?R)) =
      (if Parent opts = None \<and> \<not> BypassRegistry opts
       then insert (nextSpan w) (activeSpans (tracer w)) else activeSpans (tracer w))"
    using res(4) f b by simp
  show ?thesis
  proof (rule that [of "snd ?R" c])
    show "StartSpanCtx env w ctx opName os
      = Inr ((fst (maybeWrapCtx ctx True (nextSpan w)), nextSpan w), snd ?R)" by (rule start)
    show "nextSpan (snd ?R) = Suc (nextSpan w)" by (rule res(2))
    show "\<forall>r. r \<noteq> nextSpan w \<longrightarrow> spans (snd ?R) r = spans w r"
      by (simp add: res(3))
    show "activeSpans (tracer (snd ?R)) =
      (if Parent opts = None \<and> \<not> BypassRegistry opts
       then insert (nextSpan w) (activeSpans (tracer w)) else activeSpans (tracer w))" by (rule reg)
    show "crdb (spans (snd ?R) (nextSpan w)) = Some c" by (rule c(1))
    show "c_traceID c = (if parentTraceID w opts = 0 then take_bit 63 (rnd env (randCalls w))
                        else parentTraceID w opts)"
      using c(2) unfolding parent_fields [OF f] .
    show "c_spanID c = take_bit 63 (rnd env
            (if parentTraceID w opts = 0 then Suc (randCalls w) else randCalls w))"
      using c(3) unfolding parent_fields [OF f] .
    show "c_recordingType c = opts_recordingType w opts"
      using c(4) unfolding parent_fields [OF f] .
    show "c_baggage c = fold (\<lambda>(k, v). AList.update k v)
          (case Parent opts of
             Some pr \<Rightarrow> (case crdb (spans w pr) of Some pc \<Rightarrow> c_baggage pc | None \<Rightarrow> [])
           | None \<Rightarrow> (case RemoteParent opts of Some m \<Rightarrow> Baggage m | None \<Rightarrow> []))
          []"
      using c(5) unfolding f .
  qed
qed

section \<open>Evaluation of span creation on concrete stores\<close>

lemmas span_eval = StartSpanCtx_def startSpanGeneric_def startRealSpan_def NewTracer_def
  spanOptions0_def AlwaysTrace_def useNetTrace_def getShadowTracer_def opts_recordingType_def
  parentTraceID_def parentSpanID_def shadowTrTyp_def Type_def inheritLogTags_def
  newShadowSpan_def newNetTrace_def newIDs_def Int63_def alloc_def enableRecording_def
  copyBaggageOrRegister_def isNoop_def SetTag_def SetBaggageItem_def mirrorTag_def
  mirrorBaggage_def Span0_def otSpan0_def Let_def

section \<open>A local and a remote parent together\<close>

text \<open>
  C5. When the options, applied in order to the zero value, name both a local parent span
  and a remote parent SpanMeta, \<open>StartSpanCtx\<close> panics: it returns no span and changes
  nothing. The panic is the one for the two parents, unless the reference type is none of
  the two known ones, which is tested first and panics too.
\<close>

theorem StartSpanCtx_both_parents_panics:
  assumes "opts = fold (\<lambda>opt opts. opt opts) os spanOptions0"
    and "Parent opts \<noteq> None" and "RemoteParent opts \<noteq> None"
  shows "StartSpanCtx env w ctx opName os =
     Inl (Panic (if RefType opts = ChildOfRef \<or> RefType opts = FollowsFromRef
                 then ''can't specify both Parent and RemoteParent''
                 else ''unexpected RefType''))"
  using assms(2,3) unfolding StartSpanCtx_opts [OF assms(1)] startSpanGeneric_def Let_def
  by auto

theorem StartSpanCtx_both_parents_panics_witness:
  "Parent (fold (\<lambda>opt opts. opt opts)
       [\<lambda>opts. opts\<lparr>Parent := Some 0\<rparr>, \<lambda>opts. opts\<lparr>RemoteParent := Some noopSpanMeta\<rparr>]
       spanOptions0) \<noteq> None
   \<and> RemoteParent (fold (\<lambda>opt opts. opt opts)
       [\<lambda>opts. opts\<lparr>Parent := Some 0\<rparr>, \<lambda>opts. opts\<lparr>RemoteParent := Some noopSpanMeta\<rparr>]
       spanOptions0) \<noteq> None
   \<and> StartSpanCtx \<lparr>rnd = of_nat, now = 0, goid = 0\<rparr> NewTracer noCtx ''op''
       [\<lambda>opts. opts\<lparr>Parent := Some 0\<rparr>, \<lambda>opts. opts\<lparr>RemoteParent := Some noopSpanMeta\<rparr>]
     = Inl (Panic ''can't specify both Parent and RemoteParent'')"
proof -
  let ?os = "[\<lambda>opts. opts\<lparr>Parent := Some 0\<rparr>, \<lambda>opts. opts\<lparr>RemoteParent := Some noopSpanMeta\<rparr>]"
  have h2: "Parent (fold (\<lambda>opt opts. opt opts) ?os spanOptions0) \<noteq> None" by simp
  have h3: "RemoteParent (fold (\<lambda>opt opts. opt opts) ?os spanOptions0) \<noteq> None" by simp
  from StartSpanCtx_both_parents_panics [OF refl h2 h3, of "\<lparr>rnd = of_nat, now = 0, goid = 0\<rparr>" NewTracer noCtx "''op''"] h2 h3
  show ?thesis by (simp add: spanOptions0_def)
qed

section \<open>The no-op fast path\<close>

text \<open>
  C2 fails in its last part as it is stated: a context that does not already carry the
  no-op span is not returned unchanged, it is returned carrying the no-op span, as the
  doc comment of \<open>startSpanGeneric\<close> has it (the returned Context embeds the returned
  Span). Here a context without a span comes back with the no-op span, at address 0.
\<close>

theorem StartSpanCtx_noop_context_counterexample:
  "StartSpanCtx \<lparr>rnd = of_nat, now = 0, goid = 0\<rparr> NewTracer (Ctx None None) ''op'' []
     = Inr ((Ctx None (Some 0), 0), NewTracer)
   \<and> noopSpan (tracer NewTracer) = 0
   \<and> Ctx None (Some 0) \<noteq> Ctx None None"
  by (simp add: span_eval)

text \<open>
  C2, amended. On a tracer in legacy mode with no shadow tracer and net/trace off, a call
  of \<open>StartSpanCtx\<close> whose options force no real span and derive no recording from a parent
  (and that does not panic: the reference type is one of the two known ones and the options
  do not name both parents) returns the tracer's preallocated no-op span, the same address
  at every such call, and leaves the store as it was: nothing is allocated, the registry
  and the random source are untouched. The returned context is \<open>noCtx\<close> for \<open>noCtx\<close> and
  otherwise the input context carrying the no-op span; so it is the input context exactly
  when that is \<open>noCtx\<close> or already carries the no-op span.
\<close>

theorem StartSpanCtx_noop_fast_path:
  assumes "opts = fold (\<lambda>opt opts. opt opts) os spanOptions0"
    and "t_mode (tracer w) = modeLegacy"
    and "getShadowTracer (tracer w) = None"
    and "\<not> useNetTrace (tracer w)"
    and "\<not> ForceRealSpan opts"
    and "opts_recordingType w opts = RecordingOff"
    and "RefType opts = ChildOfRef \<or> RefType opts = FollowsFromRef"
    and "Parent opts = None \<or> RemoteParent opts = None"
  shows "StartSpanCtx env w ctx opName os =
     Inr ((case ctx of noCtx \<Rightarrow> noCtx | Ctx tags old \<Rightarrow> Ctx tags (Some (noopSpan (tracer w))),
           noopSpan (tracer w)), w)
     \<and> ((case ctx of noCtx \<Rightarrow> noCtx | Ctx tags old \<Rightarrow> Ctx tags (Some (noopSpan (tracer w)))) = ctx
         \<longleftrightarrow> ctx = noCtx \<or> (\<exists>tags. ctx = Ctx tags (Some (noopSpan (tracer w)))))"
proof -
  let ?o = "if LogTags opts = None then opts\<lparr>LogTags := FromContext ctx\<rparr> else opts"
  have "Parent ?o = Parent opts" "RemoteParent ?o = RemoteParent opts" by simp_all
  then have "opts_recordingType w ?o = opts_recordingType w opts" by (intro parent_fields)
  moreover have "ForceRealSpan ?o = ForceRealSpan opts" by simp
  ultimately have "startSpanGeneric env w ctx opName opts
      = Inr (maybeWrapCtx ctx False (noopSpan (tracer w)), w)"
    using assms(2-) unfolding startSpanGeneric_def Let_def AlwaysTrace_def by auto
  then have "StartSpanCtx env w ctx opName os =
     Inr ((case ctx of noCtx \<Rightarrow> noCtx | Ctx tags old \<Rightarrow> Ctx tags (Some (noopSpan (tracer w))),
           noopSpan (tracer w)), w)"
    unfolding StartSpanCtx_opts [OF assms(1)] by (cases ctx) simp_all
  moreover have "(case ctx of noCtx \<Rightarrow> noCtx | Ctx tags old \<Rightarrow> Ctx tags (Some (noopSpan (tracer w)))) = ctx
     \<longleftrightarrow> ctx = noCtx \<or> (\<exists>tags. ctx = Ctx tags (Some (noopSpan (tracer w))))"
    by (cases ctx) auto
  ultimately show ?thesis by (rule conjI)
qed

theorem StartSpanCtx_noop_fast_path_witness:
  "StartSpanCtx \<lparr>rnd = of_nat, now = 0, goid = 0\<rparr> NewTracer (Ctx (Some [(''n'', ''1'')]) (Some 0)) ''op''
       [\<lambda>opts. opts\<lparr>Parent := Some 0\<rparr>, \<lambda>opts. opts\<lparr>RefType := FollowsFromRef\<rparr>]
     = Inr ((Ctx (Some [(''n'', ''1'')]) (Some 0), 0), NewTracer)
   \<and> noopSpan (tracer NewTracer) = 0"
proof -
  let ?os = "[\<lambda>opts. opts\<lparr>Parent := Some 0\<rparr>, \<lambda>opts. opts\<lparr>RefType := FollowsFromRef\<rparr>]"
  let ?opts = "fold (\<lambda>opt opts. opt opts) ?os spanOptions0"
  have h2: "t_mode (tracer NewTracer) = modeLegacy" by (simp add: NewTracer_def)
  have h3: "getShadowTracer (tracer NewTracer) = None" by (simp add: NewTracer_def getShadowTracer_def)
  have h4: "\<not> useNetTrace (tracer NewTracer)" by (simp add: NewTracer_def useNetTrace_def)
  have h5: "\<not> ForceRealSpan ?opts" by (simp add: spanOptions0_def)
  have h6: "opts_recordingType NewTracer ?opts = RecordingOff"
    by (simp add: opts_recordingType_def NewTracer_def Span0_def)
  have h7: "RefType ?opts = ChildOfRef \<or> RefType ?opts = FollowsFromRef" by simp
  have h8: "Parent ?opts = None \<or> RemoteParent ?opts = None" by (simp add: spanOptions0_def)
  have n: "noopSpan (tracer NewTracer) = 0" by (simp add: NewTracer_def)
  from StartSpanCtx_noop_fast_path [OF refl h2 h3 h4 h5 h6 h7 h8, THEN conjunct1,
      of "\<lparr>rnd = of_nat, now = 0, goid = 0\<rparr>" "Ctx (Some [(''n'', ''1'')]) (Some 0)" "''op''"] n
  show ?thesis by simp
qed

section \<open>The ids of a new span\<close>

text \<open>
  C3 fails as it is stated: the trace id of a span without a parent is whatever
  \<open>rand.Int63\<close> returns, and nothing keeps that from being 0. With a random source whose
  first value is 0, the first span of a new tracer, forced to be real, has trace id 0.
\<close>

theorem startSpanGeneric_zero_trace_id_counterexample:
  "\<not> isl (startSpanGeneric \<lparr>rnd = of_nat, now = 0, goid = 0\<rparr> NewTracer noCtx ''op'' \<lparr>Parent = None, RemoteParent = None, RefType = ChildOfRef, LogTags = None,
       Tags = [], ForceRealSpan = True, BypassRegistry = False\<rparr>)
   \<and> snd (fst (projr (startSpanGeneric \<lparr>rnd = of_nat, now = 0, goid = 0\<rparr> NewTracer noCtx ''op'' \<lparr>Parent = None, RemoteParent = None, RefType = ChildOfRef, LogTags = None,
       Tags = [], ForceRealSpan = True, BypassRegistry = False\<rparr>))) = 1
   \<and> noopSpan (tracer NewTracer) = 0
   \<and> map_option c_traceID
        (crdb (spans (snd (projr (startSpanGeneric \<lparr>rnd = of_nat, now = 0, goid = 0\<rparr> NewTracer noCtx ''op'' \<lparr>Parent = None, RemoteParent = None, RefType = ChildOfRef, LogTags = None,
       Tags = [], ForceRealSpan = True, BypassRegistry = False\<rparr>))) 1))
      = Some 0"
  by (simp add: span_eval)

text \<open>
  C3, amended. When \<open>StartSpanCtx\<close> creates a real span (no panic, and the no-op path is
  not taken), the span is a new one, its span id is the next value of \<open>rand.Int63\<close>, and its
  trace id is the parent's when that is not 0 and otherwise the value of \<open>rand.Int63\<close> drawn
  just before; these values are below \<open>2 ^ 63\<close>, and an id is 0 exactly when the value it
  is taken from is 0. The no-op span of a new tracer has no span record, so no ids other
  than the zero values.
\<close>

theorem StartSpanCtx_real_span_ids:
  assumes "opts = fold (\<lambda>opt opts. opt opts) os spanOptions0"
    and "RefType opts = ChildOfRef \<or> RefType opts = FollowsFromRef"
    and "Parent opts = None \<or> RemoteParent opts = None"
    and "AlwaysTrace (tracer w) \<or> opts_recordingType w opts \<noteq> RecordingOff
         \<or> ForceRealSpan opts \<or> t_mode (tracer w) = modeBackground"
    and "\<forall>pr. Parent opts = Some pr \<longrightarrow> pr < nextSpan w"
  shows "(\<exists>ctx' w' c. StartSpanCtx env w ctx opName os = Inr ((ctx', nextSpan w), w')
        \<and> crdb (spans w' (nextSpan w)) = Some c
        \<and> c_traceID c = (if parentTraceID w opts = 0 then take_bit 63 (rnd env (randCalls w))
                          else parentTraceID w opts)
        \<and> c_spanID c = take_bit 63 (rnd env
              (if parentTraceID w opts = 0 then Suc (randCalls w) else randCalls w))
        \<and> (parentTraceID w opts = 0 \<longrightarrow> unat (c_traceID c) < 2 ^ 63)
        \<and> unat (c_spanID c) < 2 ^ 63)
     \<and> crdb (spans NewTracer (noopSpan (tracer NewTracer))) = None"
proof -
  obtain w' c where "StartSpanCtx env w ctx opName os
       = Inr ((fst (maybeWrapCtx ctx True (nextSpan w)), nextSpan w), w')"
    and "crdb (spans w' (nextSpan w)) = Some c"
    and "c_traceID c = (if parentTraceID w opts = 0 then take_bit 63 (rnd env (randCalls w))
                        else parentTraceID w opts)"
    and "c_spanID c = take_bit 63 (rnd env
            (if parentTraceID w opts = 0 then Suc (randCalls w) else randCalls w))"
    by (rule StartSpanCtx_real [OF assms, of env ctx opName])
  moreover have "unat (take_bit 63 x) < 2 ^ 63" for x :: uint64
    using take_bit_nat_less_exp [of 63 "unat x"] by (simp add: unsigned_take_bit_eq)
  moreover have "crdb (spans NewTracer (noopSpan (tracer NewTracer))) = None"
    by (simp add: NewTracer_def Span0_def)
  ultimately show ?thesis by auto
qed

theorem StartSpanCtx_real_span_ids_witness:
  "\<exists>ctx' w' c. StartSpanCtx \<lparr>rnd = of_nat \<circ> Suc, now = 0, goid = 0\<rparr> NewTracer noCtx ''op''
        [\<lambda>opts. opts\<lparr>ForceRealSpan := True\<rparr>] = Inr ((ctx', 1), w')
     \<and> crdb (spans w' 1) = Some c \<and> c_traceID c = 1 \<and> c_spanID c = 2"
proof -
  let ?os = "[\<lambda>opts. opts\<lparr>ForceRealSpan := True\<rparr>]"
  let ?opts = "fold (\<lambda>opt opts. opt opts) ?os spanOptions0"
  have h2: "RefType ?opts = ChildOfRef \<or> RefType ?opts = FollowsFromRef" by (simp add: spanOptions0_def)
  have h3: "Parent ?opts = None \<or> RemoteParent ?opts = None" by (simp add: spanOptions0_def)
  have h4: "AlwaysTrace (tracer NewTracer) \<or> opts_recordingType NewTracer ?opts \<noteq> RecordingOff
         \<or> ForceRealSpan ?opts \<or> t_mode (tracer NewTracer) = modeBackground" by simp
  have h5: "\<forall>pr. Parent ?opts = Some pr \<longrightarrow> pr < nextSpan NewTracer" by (simp add: spanOptions0_def)
  have p: "parentTraceID NewTracer ?opts = 0" by (simp add: parentTraceID_def spanOptions0_def)
  have n: "nextSpan NewTracer = 1" "randCalls NewTracer = 0" by (simp_all add: NewTracer_def)
  from StartSpanCtx_real_span_ids [OF refl h2 h3 h4 h5,
      of "\<lparr>rnd = of_nat \<circ> Suc, now = 0, goid = 0\<rparr>" noCtx "''op''", THEN conjunct1]
  show ?thesis unfolding p n by auto
qed

section \<open>The registry of active spans\<close>

text \<open>
  C4 fails as it is stated: a span with a remote parent and no local parent is a local
  root and goes into the registry; only a local parent keeps it out. Here the first span
  of a new tracer, forced to be real and given a remote parent, is registered.
\<close>

theorem startSpanGeneric_remote_parent_registered_counterexample:
  "RemoteParent \<lparr>Parent = None,
       RemoteParent = Some \<lparr>traceID = 5, spanID = 6, shadowTracerType = [], shadowCtx = None,
         recordingType = RecordingOff, Baggage = []\<rparr>,
       RefType = ChildOfRef, LogTags = None,
       Tags = [], ForceRealSpan = True, BypassRegistry = False\<rparr> \<noteq> None
   \<and> \<not> isl (startSpanGeneric \<lparr>rnd = of_nat, now = 0, goid = 0\<rparr> NewTracer noCtx ''op'' \<lparr>Parent = None,
       RemoteParent = Some \<lparr>traceID = 5, spanID = 6, shadowTracerType = [], shadowCtx = None,
         recordingType = RecordingOff, Baggage = []\<rparr>,
       RefType = ChildOfRef, LogTags = None,
       Tags = [], ForceRealSpan = True, BypassRegistry = False\<rparr>)
   \<and> snd (fst (projr (startSpanGeneric \<lparr>rnd = of_nat, now = 0, goid = 0\<rparr> NewTracer noCtx ''op'' \<lparr>Parent = None,
       RemoteParent = Some \<lparr>traceID = 5, spanID = 6, shadowTracerType = [], shadowCtx = None,
         recordingType = RecordingOff, Baggage = []\<rparr>,
       RefType = ChildOfRef, LogTags = None,
       Tags = [], ForceRealSpan = True, BypassRegistry = False\<rparr>))) = 1
   \<and> 1 \<in> activeSpans (tracer (snd (projr (startSpanGeneric \<lparr>rnd = of_nat, now = 0, goid = 0\<rparr> NewTracer noCtx ''op'' \<lparr>Parent = None,
       RemoteParent = Some \<lparr>traceID = 5, spanID = 6, shadowTracerType = [], shadowCtx = None,
         recordingType = RecordingOff, Baggage = []\<rparr>,
       RefType = ChildOfRef, LogTags = None,
       Tags = [], ForceRealSpan = True, BypassRegistry = False\<rparr>))))"
  by (simp add: span_eval)

text \<open>
  C4, amended. When \<open>StartSpanCtx\<close> creates a real span, the span is inserted into the
  tracer's registry of active spans if and only if the bypass-registry option is not set
  and no local parent span was supplied; a remote parent SpanMeta makes no difference.
  Nothing else in the registry changes. (The registry holds addresses of allocated spans
  and the local parent, if any, is allocated.)
\<close>

theorem StartSpanCtx_registry:
  assumes "opts = fold (\<lambda>opt opts. opt opts) os spanOptions0"
    and "RefType opts = ChildOfRef \<or> RefType opts = FollowsFromRef"
    and "Parent opts = None \<or> RemoteParent opts = None"
    and "AlwaysTrace (tracer w) \<or> opts_recordingType w opts \<noteq> RecordingOff
         \<or> ForceRealSpan opts \<or> t_mode (tracer w) = modeBackground"
    and "\<forall>pr. Parent opts = Some pr \<longrightarrow> pr < nextSpan w"
    and "\<forall>r \<in> activeSpans (tracer w). r < nextSpan w"
  shows "\<exists>ctx' w'. StartSpanCtx env w ctx opName os = Inr ((ctx', nextSpan w), w')
        \<and> (nextSpan w \<in> activeSpans (tracer w') \<longleftrightarrow> Parent opts = None \<and> \<not> BypassRegistry opts)
        \<and> activeSpans (tracer w') - {nextSpan w} = activeSpans (tracer w)"
proof -
  obtain w' where "StartSpanCtx env w ctx opName os
       = Inr ((fst (maybeWrapCtx ctx True (nextSpan w)), nextSpan w), w')"
    and "activeSpans (tracer w') =
      (if Parent opts = None \<and> \<not> BypassRegistry opts
       then insert (nextSpan w) (activeSpans (tracer w)) else activeSpans (tracer w))"
    by (rule StartSpanCtx_real [OF assms(1-5), of env ctx opName])
  moreover have "nextSpan w \<notin> activeSpans (tracer w)" using assms(6) by auto
  ultimately show ?thesis by auto
qed

theorem StartSpanCtx_registry_witness:
  "\<exists>ctx' w'. StartSpanCtx \<lparr>rnd = of_nat, now = 0, goid = 0\<rparr> NewTracer noCtx ''op''
        [\<lambda>opts. opts\<lparr>RemoteParent := Some (noopSpanMeta\<lparr>traceID := 5, spanID := 6\<rparr>)\<rparr>,
         \<lambda>opts. opts\<lparr>ForceRealSpan := True\<rparr>] = Inr ((ctx', 1), w')
     \<and> 1 \<in> activeSpans (tracer w') \<and> activeSpans (tracer w') - {1} = {}"
proof -
  let ?os = "[\<lambda>opts. opts\<lparr>RemoteParent := Some (noopSpanMeta\<lparr>traceID := 5, spanID := 6\<rparr>)\<rparr>,
         \<lambda>opts. opts\<lparr>ForceRealSpan := True\<rparr>]"
  let ?opts = "fold (\<lambda>opt opts. opt opts) ?os spanOptions0"
  have h2: "RefType ?opts = ChildOfRef \<or> RefType ?opts = FollowsFromRef" by (simp add: spanOptions0_def)
  have h3: "Parent ?opts = None \<or> RemoteParent ?opts = None" by (simp add: spanOptions0_def)
  have h4: "AlwaysTrace (tracer NewTracer) \<or> opts_recordingType NewTracer ?opts \<noteq> RecordingOff
         \<or> ForceRealSpan ?opts \<or> t_mode (tracer NewTracer) = modeBackground" by simp
  have h5: "\<forall>pr. Parent ?opts = Some pr \<longrightarrow> pr < nextSpan NewTracer" by (simp add: spanOptions0_def)
  have h6: "\<forall>r \<in> activeSpans (tracer NewTracer). r < nextSpan NewTracer" by (simp add: NewTracer_def)
  have n: "nextSpan NewTracer = 1" "activeSpans (tracer NewTracer) = {}"
    "Parent ?opts = None" "\<not> BypassRegistry ?opts"
    by (simp_all add: NewTracer_def spanOptions0_def)
  from StartSpanCtx_registry [OF refl h2 h3 h4 h5 h6, of "\<lparr>rnd = of_nat, now = 0, goid = 0\<rparr>" noCtx "''op''"]
  show ?thesis unfolding n by (simp add: spanOptions0_def)
qed

section \<open>The baggage of a child span\<close>

text \<open>
  C6. When \<open>StartSpanCtx\<close> creates a real span for options that name a real local parent
  (an allocated span with a span record), the new span is at a new address, and right
  after the call its baggage has exactly the entries of the parent's baggage, while the
  parent is as it was. It is a copy: after \<open>SetBaggageItem\<close> on the child, for any key and
  value, the parent is still as it was, and the child's baggage is the parent's entries
  with that one set.
\<close>

theorem StartSpanCtx_child_baggage:
  assumes "opts = fold (\<lambda>opt opts. opt opts) os spanOptions0"
    and "Parent opts = Some p" and "RemoteParent opts = None"
    and "p < nextSpan w" and "crdb (spans w p) = Some pc"
    and "distinct (map fst (c_baggage pc))"
    and "RefType opts = ChildOfRef \<or> RefType opts = FollowsFromRef"
    and "AlwaysTrace (tracer w) \<or> opts_recordingType w opts \<noteq> RecordingOff
         \<or> ForceRealSpan opts \<or> t_mode (tracer w) = modeBackground"
  shows "\<exists>ctx' w' c. StartSpanCtx env w ctx opName os = Inr ((ctx', nextSpan w), w')
      \<and> nextSpan w \<noteq> p
      \<and> crdb (spans w' (nextSpan w)) = Some c
      \<and> map_of (c_baggage c) = map_of (c_baggage pc)
      \<and> spans w' p = spans w p
      \<and> (\<forall>k v. spans (SetBaggageItem (nextSpan w) k v w') p = spans w p
            \<and> (\<exists>c'. crdb (spans (SetBaggageItem (nextSpan w) k v w') (nextSpan w)) = Some c'
                  \<and> map_of (c_baggage c') = (map_of (c_baggage pc))(k \<mapsto> v)))"
proof -
  have h3: "Parent opts = None \<or> RemoteParent opts = None" using assms(3) by simp
  have h5: "\<forall>pr. Parent opts = Some pr \<longrightarrow> pr < nextSpan w" using assms(2,4) by simp
  obtain w' c where start: "StartSpanCtx env w ctx opName os
       = Inr ((fst (maybeWrapCtx ctx True (nextSpan w)), nextSpan w), w')"
    and "nextSpan w' = Suc (nextSpan w)"
    and frame: "\<forall>r. r \<noteq> nextSpan w \<longrightarrow> spans w' r = spans w r"
    and "activeSpans (tracer w') =
      (if Parent opts = None \<and> \<not> BypassRegistry opts
       then insert (nextSpan w) (activeSpans (tracer w)) else activeSpans (tracer w))"
    and c: "crdb (spans w' (nextSpan w)) = Some c"
    and "c_traceID c = (if parentTraceID w opts = 0 then take_bit 63 (rnd env (randCalls w))
                        else parentTraceID w opts)"
    and "c_spanID c = take_bit 63 (rnd env
            (if parentTraceID w opts = 0 then Suc (randCalls w) else randCalls w))"
    and "c_recordingType c = opts_recordingType w opts"
    and bag: "c_baggage c = fold (\<lambda>(k, v). AList.update k v)
          (case Parent opts of
             Some pr \<Rightarrow> (case crdb (spans w pr) of Some pc \<Rightarrow> c_baggage pc | None \<Rightarrow> [])
           | None \<Rightarrow> (case RemoteParent opts of Some m \<Rightarrow> Baggage m | None \<Rightarrow> []))
          []"
    by (rule StartSpanCtx_real [OF assms(1) assms(7) h3 assms(8) h5, of env ctx opName])
  have ne: "nextSpan w \<noteq> p" "p \<noteq> nextSpan w" using assms(4) by simp_all
  have "c_baggage c = fold (\<lambda>(k, v). AList.update k v) (c_baggage pc) []"
    using bag assms(2,5) by simp
  then have eq: "map_of (c_baggage c) = map_of (c_baggage pc)"
    using map_of_fold_update [OF assms(6), of "[]"] by simp
  have parent: "spans w' p = spans w p" using frame ne(2) by simp
  have after: "spans (SetBaggageItem (nextSpan w) k v w') p = spans w p
      \<and> (\<exists>c'. crdb (spans (SetBaggageItem (nextSpan w) k v w') (nextSpan w)) = Some c'
            \<and> map_of (c_baggage c') = (map_of (c_baggage pc))(k \<mapsto> v))" for k v
  proof
    show "spans (SetBaggageItem (nextSpan w) k v w') p = spans w p"
      using SetBaggageItem_frame(4) [OF ne(2), of k v w'] parent by simp
    show "\<exists>c'. crdb (spans (SetBaggageItem (nextSpan w) k v w') (nextSpan w)) = Some c'
            \<and> map_of (c_baggage c') = (map_of (c_baggage pc))(k \<mapsto> v)"
      using c eq by (simp add: SetBaggageItem_crdb update_conv')
  qed
  show ?thesis using start ne(1) c eq parent after by blast
qed

theorem StartSpanCtx_child_baggage_witness:
  "\<exists>ctx' w' c. StartSpanCtx \<lparr>rnd = of_nat, now = 0, goid = 0\<rparr>
      \<lparr>tracer = \<lparr>noopSpan = 0, t_mode = modeBackground, t_useNetTrace = False,
          t_shadowTracer = None, activeSpans = {1}\<rparr>,
        spans = (\<lambda>r. Span0)(1 := \<lparr>crdb = Some \<lparr>c_traceID = 7, c_spanID = 8, c_goroutineID = 0,
              c_operation = ''parent'', c_startTime = 0, c_parentSpanID = 0, c_logTags = None,
              c_duration = - 1, c_recordingType = RecordingOff, c_baggage = [(''a'', ''b'')],
              c_tags = []\<rparr>, ot = otSpan0, netTr = None\<rparr>),
        nextSpan = 2, randCalls = 2\<rparr>
      noCtx ''child'' [\<lambda>opts. opts\<lparr>Parent := Some 1\<rparr>] = Inr ((ctx', 2), w')
      \<and> crdb (spans w' 2) = Some c
      \<and> map_of (c_baggage c) = map_of [(''a'', ''b'')]
      \<and> crdb (spans w' 1) = Some \<lparr>c_traceID = 7, c_spanID = 8, c_goroutineID = 0,
              c_operation = ''parent'', c_startTime = 0, c_parentSpanID = 0, c_logTags = None,
              c_duration = - 1, c_recordingType = RecordingOff, c_baggage = [(''a'', ''b'')],
              c_tags = []\<rparr>
      \<and> (\<forall>k v. crdb (spans (SetBaggageItem 2 k v w') 1) = Some \<lparr>c_traceID = 7, c_spanID = 8, c_goroutineID = 0,
              c_operation = ''parent'', c_startTime = 0, c_parentSpanID = 0, c_logTags = None,
              c_duration = - 1, c_recordingType = RecordingOff, c_baggage = [(''a'', ''b'')],
              c_tags = []\<rparr>)"
proof -
  let ?w = "\<lparr>tracer = \<lparr>noopSpan = 0, t_mode = modeBackground, t_useNetTrace = False,
          t_shadowTracer = None, activeSpans = {1}\<rparr>,
        spans = (\<lambda>r. Span0)(1 := \<lparr>crdb = Some \<lparr>c_traceID = 7, c_spanID = 8, c_goroutineID = 0,
              c_operation = ''parent'', c_startTime = 0, c_parentSpanID = 0, c_logTags = None,
              c_duration = - 1, c_recordingType = RecordingOff, c_baggage = [(''a'', ''b'')],
              c_tags = []\<rparr>, ot = otSpan0, netTr = None\<rparr>),
        nextSpan = 2, randCalls = 2\<rparr>"
  let ?pc = "\<lparr>c_traceID = 7, c_spanID = 8, c_goroutineID = 0,
              c_operation = ''parent'', c_startTime = 0, c_parentSpanID = 0, c_logTags = None,
              c_duration = - 1, c_recordingType = RecordingOff, c_baggage = [(''a'', ''b'')],
              c_tags = []\<rparr>"
  let ?os = "[\<lambda>opts. opts\<lparr>Parent := Some 1\<rparr>]"
  let ?opts = "fold (\<lambda>opt opts. opt opts) ?os spanOptions0"
  have h2: "Parent ?opts = Some 1" by simp
  have h3: "RemoteParent ?opts = None" by (simp add: spanOptions0_def)
  have h4: "1 < nextSpan ?w" by simp
  have h5: "crdb (spans ?w 1) = Some ?pc" by simp
  have h6: "distinct (map fst (c_baggage ?pc))" by simp
  have h7: "RefType ?opts = ChildOfRef \<or> RefType ?opts = FollowsFromRef" by (simp add: spanOptions0_def)
  have h8: "AlwaysTrace (tracer ?w) \<or> opts_recordingType ?w ?opts \<noteq> RecordingOff
         \<or> ForceRealSpan ?opts \<or> t_mode (tracer ?w) = modeBackground" by simp
  from StartSpanCtx_child_baggage [OF refl h2 h3 h4 h5 h6 h7 h8, of "\<lparr>rnd = of_nat, now = 0, goid = 0\<rparr>" noCtx "''child''"]
  obtain ctx' w' c where r: "StartSpanCtx \<lparr>rnd = of_nat, now = 0, goid = 0\<rparr> ?w noCtx ''child'' ?os = Inr ((ctx', nextSpan ?w), w')"
    "crdb (spans w' (nextSpan ?w)) = Some c"
    "map_of (c_baggage c) = map_of (c_baggage ?pc)"
    "spans w' 1 = spans ?w 1"
    "\<forall>k v. spans (SetBaggageItem (nextSpan ?w) k v w') 1 = spans ?w 1"
    by blast
  have "StartSpanCtx \<lparr>rnd = of_nat, now = 0, goid = 0\<rparr> ?w noCtx ''child'' ?os = Inr ((ctx', 2), w')
      \<and> crdb (spans w' 2) = Some c
      \<and> map_of (c_baggage c) = map_of [(''a'', ''b'')]
      \<and> crdb (spans w' 1) = Some ?pc
      \<and> (\<forall>k v. crdb (spans (SetBaggageItem 2 k v w') 1) = Some ?pc)"
    using r by simp
  then show ?thesis by blast
qed

end
